theory Spec2Isabelle
  imports Main "HOL-Library.Sublist" "HOL-Library.AList"
begin

section \<open>JavaScript values as produced by the XML parser\<close>

text \<open>
  \<^verbatim>\<open>scripts/transform.mjs\<close> works on the object that \<^verbatim>\<open>XMLParser.parse\<close> returns: plain
  objects keyed by tag name (attributes under the prefix \<^verbatim>\<open>@_\<close>), arrays where a tag
  repeats, and strings or numbers at the leaves. An object is an association list in
  insertion order. An array carries, besides its elements, the named properties that an
  assignment such as \<^verbatim>\<open>arr.rfc = ...\<close> creates on it. A string is a list of characters,
  one per code unit. A number (a double, as the parser makes of a numeric leaf) is kept as
  what the script observes of it: whether it is truthy, that is neither zero nor NaN, and
  the text that ToString gives for it (\<^verbatim>\<open>1.5\<close>, \<^verbatim>\<open>1e+21\<close>).
\<close>

datatype jsval =
    JUndefined
  | JNull
  | JBool bool
  | JNum bool string
  | JStr string
  | JArr "jsval list" "(string \<times> jsval) list"
  | JObj "(string \<times> jsval) list"

datatype error =
    TypeError string
  | IOError string
  | LibError string

type_synonym 'a result = "error + 'a"

definition bind :: "'a result \<Rightarrow> ('a \<Rightarrow> 'b result) \<Rightarrow> 'b result" where
  "bind m f = (case m of Inl e \<Rightarrow> Inl e | Inr x \<Rightarrow> f x)"

text \<open>ToBoolean, as used by \<^verbatim>\<open>if (...)\<close>, \<^verbatim>\<open>!\<close> and \<^verbatim>\<open>? :\<close>.\<close>

fun truthy :: "jsval \<Rightarrow> bool" where
  "truthy JUndefined = False"
| "truthy JNull = False"
| "truthy (JBool b) = b"
| "truthy (JNum nonzero txt) = nonzero"
| "truthy (JStr s) = (s \<noteq> [])"
| "truthy (JArr xs ps) = True"
| "truthy (JObj ps) = True"

fun isArray :: "jsval \<Rightarrow> bool" where
  "isArray (JArr xs ps) = True"
| "isArray _ = False"

fun elements :: "jsval \<Rightarrow> jsval list" where
  "elements (JArr xs ps) = xs"
| "elements _ = []"

text \<open>
  Property access \<^verbatim>\<open>o.k\<close> for the property names the script uses (tag and attribute
  names; none of them is an index, \<^verbatim>\<open>length\<close> or a member of a built-in prototype):
  reading from \<^verbatim>\<open>undefined\<close> or \<^verbatim>\<open>null\<close> throws, a primitive has no such property.
\<close>

fun getProp :: "jsval \<Rightarrow> string \<Rightarrow> jsval result" where
  "getProp JUndefined k = Inl (TypeError (''Cannot read properties of undefined (reading '' @ k @ '')''))"
| "getProp JNull k = Inl (TypeError (''Cannot read properties of null (reading '' @ k @ '')''))"
| "getProp (JObj ps) k = Inr (case map_of ps k of None \<Rightarrow> JUndefined | Some v \<Rightarrow> v)"
| "getProp (JArr xs ps) k = Inr (case map_of ps k of None \<Rightarrow> JUndefined | Some v \<Rightarrow> v)"
| "getProp _ k = Inr JUndefined"

text \<open>
  Assignment \<^verbatim>\<open>o.k = v\<close>; the result is the object after the assignment. The file is an
  ES module, hence strict code: assigning to a property of a primitive throws.
\<close>

fun setProp :: "jsval \<Rightarrow> string \<Rightarrow> jsval \<Rightarrow> jsval result" where
  "setProp (JObj ps) k v = Inr (JObj (AList.update k v ps))"
| "setProp (JArr xs ps) k v = Inr (JArr xs (AList.update k v ps))"
| "setProp JUndefined k v = Inl (TypeError (''Cannot set properties of undefined (setting '' @ k @ '')''))"
| "setProp JNull k v = Inl (TypeError (''Cannot set properties of null (setting '' @ k @ '')''))"
| "setProp _ k v = Inl (TypeError (''Cannot create property '' @ k))"

text \<open>\<^verbatim>\<open>delete o.k\<close>; the result is the object after the deletion.\<close>

fun deleteProp :: "jsval \<Rightarrow> string \<Rightarrow> jsval result" where
  "deleteProp (JObj ps) k = Inr (JObj (AList.delete k ps))"
| "deleteProp (JArr xs ps) k = Inr (JArr xs (AList.delete k ps))"
| "deleteProp JUndefined k = Inl (TypeError (''Cannot convert undefined or null to object''))"
| "deleteProp JNull k = Inl (TypeError (''Cannot convert undefined or null to object''))"
| "deleteProp v k = Inr v"

section \<open>String helpers of the structural patch\<close>

text \<open>\<^verbatim>\<open>s.includes(t)\<close> on strings: \<^verbatim>\<open>t\<close> occurs somewhere in \<^verbatim>\<open>s\<close>.\<close>

fun str_includes :: "string \<Rightarrow> string \<Rightarrow> bool" where
  "str_includes [] t = (t = [])"
| "str_includes (c # cs) t = (prefix t (c # cs) \<or> str_includes cs t)"

text \<open>
  \<^verbatim>\<open>s.replace(old, new)\<close> with a string pattern: only the first occurrence is replaced.
  (The replacement used by the script contains no \<^verbatim>\<open>$\<close>, so it is inserted as it is.)
\<close>

fun replaceFirst :: "string \<Rightarrow> string \<Rightarrow> string \<Rightarrow> string" where
  "replaceFirst old new [] = (if old = [] then new else [])"
| "replaceFirst old new (c # cs) =
     (if prefix old (c # cs) then new @ drop (length old) (c # cs)
      else c # replaceFirst old new cs)"

text \<open>
  \<^verbatim>\<open>x?.includes('xmldsig')\<close> for the value \<^verbatim>\<open>x\<close> of an attribute: \<^verbatim>\<open>undefined\<close> when \<^verbatim>\<open>x\<close>
  is nullish, the substring test on a string, the membership test on an array, and a
  TypeError on anything else (\<^verbatim>\<open>includes\<close> is not a function there).
\<close>

fun optIncludes :: "jsval \<Rightarrow> string \<Rightarrow> jsval result" where
  "optIncludes JUndefined t = Inr JUndefined"
| "optIncludes JNull t = Inr JUndefined"
| "optIncludes (JStr s) t = Inr (JBool (str_includes s t))"
| "optIncludes (JArr xs ps) t = Inr (JBool (JStr t \<in> set xs))"
| "optIncludes _ t = Inl (TypeError ''includes is not a function'')"

text \<open>The callback \<^verbatim>\<open>item => !item || !item['@_xmlns']?.includes('xmldsig')\<close>.\<close>

definition keepItem :: "jsval \<Rightarrow> bool result" where
  "keepItem item =
     (if \<not> truthy item then Inr True
      else bind (getProp item ''@_xmlns'') (\<lambda>x.
           bind (optIncludes x ''xmldsig'') (\<lambda>b. Inr (\<not> truthy b))))"

text \<open>\<^verbatim>\<open>Array.prototype.filter\<close> with a callback that may throw.\<close>

fun filterM :: "('a \<Rightarrow> bool result) \<Rightarrow> 'a list \<Rightarrow> 'a list result" where
  "filterM p [] = Inr []"
| "filterM p (x # xs) =
     bind (p x) (\<lambda>b. bind (filterM p xs) (\<lambda>ys. Inr (if b then x # ys else ys)))"

section \<open>The structural patch pass\<close>

text \<open>
  The body of \<^verbatim>\<open>parseAndPatchXML\<close> after the call of the parser. The script mutates the
  parsed object in place through the aliases \<^verbatim>\<open>personaMoral\<close> and \<^verbatim>\<open>accionista\<close>; the
  parsed object is a tree, so the model rebuilds the path to the root after each group of
  assignments.
\<close>

definition removeSignature :: "jsval \<Rightarrow> jsval result" where
  "removeSignature cs =
     bind (getProp cs ''Signature'') (\<lambda>sig.
     bind (if truthy sig then deleteProp cs ''Signature'' else Inr cs) (\<lambda>cs1.
     bind (getProp cs1 ''Signature'') (\<lambda>sig1.
       if isArray sig1
       then bind (filterM keepItem (elements sig1)) (\<lambda>kept.
              setProp cs1 ''Signature'' (JArr kept []))
       else Inr cs1)))"

definition patchPersonaMoral :: "jsval \<Rightarrow> jsval result" where
  "patchPersonaMoral personaMoral =
     bind (setProp personaMoral ''nombreRepresentanteLegal'' (JStr ''EDUARDO ROSALES PAZ'')) (\<lambda>pm1.
     bind (getProp pm1 ''claveTramite'') (\<lambda>ct.
       case ct of
         JStr s \<Rightarrow> setProp pm1 ''claveTramite''
                     (JStr (replaceFirst ''MEGJ640107QSA'' ''ROPE6505115EA'' s))
       | JUndefined \<Rightarrow> Inl (TypeError ''Cannot read properties of undefined (reading replace)'')
       | JNull \<Rightarrow> Inl (TypeError ''Cannot read properties of null (reading replace)'')
       | _ \<Rightarrow> Inl (TypeError ''personaMoral.claveTramite.replace is not a function'')))"

definition patchAccionista :: "jsval \<Rightarrow> jsval result" where
  "patchAccionista accionista =
     bind (setProp accionista ''rfc'' (JStr ''ROPE6505115EA'')) (\<lambda>a1.
     bind (setProp a1 ''curp'' (JStr ''ROPE650511HDFSZD07'')) (\<lambda>a2.
     bind (setProp a2 ''nombre'' (JStr ''EDUARDO'')) (\<lambda>a3.
     bind (setProp a3 ''apellidoPaterno'' (JStr ''ROSALES'')) (\<lambda>a4.
     setProp a4 ''apellidoMaterno'' (JStr ''PAZ'')))))"

definition patchTree :: "jsval \<Rightarrow> jsval result" where
  "patchTree xmlObj =
     bind (getProp xmlObj ''contratoSocial'') (\<lambda>cs.
     bind (removeSignature cs) (\<lambda>cs1.
     bind (getProp cs1 ''personaMoral'') (\<lambda>personaMoral.
     bind (patchPersonaMoral personaMoral) (\<lambda>pm1.
     bind (setProp cs1 ''personaMoral'' pm1) (\<lambda>cs2.
     bind (getProp cs2 ''accionistas'') (\<lambda>accionistas.
     bind (getProp accionistas ''accionista'') (\<lambda>accionista.
     bind (patchAccionista accionista) (\<lambda>acc1.
     bind (setProp accionistas ''accionista'' acc1) (\<lambda>accs1.
     bind (setProp cs2 ''accionistas'' accs1) (\<lambda>cs3.
     setProp xmlObj ''contratoSocial'' cs3))))))))))"

text \<open>
  \<^verbatim>\<open>parseAndPatchXML\<close>: the parser (\<^verbatim>\<open>fast-xml-parser\<close>, configured to keep attributes
  under \<^verbatim>\<open>@_\<close>) is a parameter.
\<close>

definition parseAndPatchXML :: "(string \<Rightarrow> jsval result) \<Rightarrow> string \<Rightarrow> jsval result" where
  "parseAndPatchXML parser xmlContent = bind (parser xmlContent) patchTree"

text \<open>Reading along a path of property names, and the test for an own property.\<close>

fun getPath :: "jsval \<Rightarrow> string list \<Rightarrow> jsval result" where
  "getPath v [] = Inr v"
| "getPath v (k # ks) = bind (getProp v k) (\<lambda>w. getPath w ks)"


text \<open>\<^verbatim>\<open>serializeXML\<close> hands the object to \<^verbatim>\<open>XMLBuilder.build\<close>, a parameter here.\<close>

definition serializeXML :: "(jsval \<Rightarrow> string result) \<Rightarrow> jsval \<Rightarrow> string result" where
  "serializeXML builder xmlObj = builder xmlObj"

section \<open>The text substitution pass\<close>

definition backslash :: char where
  "backslash = CHR 0x5C"

text \<open>The characters of the class \<^verbatim>\<open>[.*+?^${}()|[\]\\]\<close>.\<close>

definition syntaxChars :: "char list" where
  "syntaxChars = ''.*+?^${}()|[]'' @ [backslash]"

text \<open>
  \<^verbatim>\<open>old.replace(/[.*+?^${}()|[\]\\]/g, '\\$&')\<close>: every character of the class is
  replaced by a backslash followed by itself.
\<close>

definition escapeRegExp :: "string \<Rightarrow> string" where
  "escapeRegExp s = concat (map (\<lambda>c. if c \<in> set syntaxChars then [backslash, c] else [c]) s)"

text \<open>
  The fragment of the pattern language of \<^verbatim>\<open>new RegExp(src, 'g')\<close> that is modelled:
  a sequence of literal characters and dots. A backslash before a syntax character is
  that character taken literally; an unescaped dot matches any character but a line
  terminator; a pattern that uses another operator or escape is outside the fragment
  (\<open>None\<close>).
\<close>

datatype atom = Lit char | AnyChar

fun parsePattern :: "string \<Rightarrow> atom list option" where
  "parsePattern [] = Some []"
| "parsePattern [c] =
     (if c = CHR ''.'' then Some [AnyChar]
      else if c \<in> set syntaxChars then None
      else Some [Lit c])"
| "parsePattern (c # d # cs) =
     (if c = backslash then
        (if d \<in> set syntaxChars then map_option ((#) (Lit d)) (parsePattern cs) else None)
      else if c = CHR ''.'' then map_option ((#) AnyChar) (parsePattern (d # cs))
      else if c \<in> set syntaxChars then None
      else map_option ((#) (Lit c)) (parsePattern (d # cs)))"

fun matchAtom :: "atom \<Rightarrow> char \<Rightarrow> bool" where
  "matchAtom (Lit c) d = (c = d)"
| "matchAtom AnyChar d = (d \<noteq> CHR 0x0A \<and> d \<noteq> CHR 0x0D)"

text \<open>Does the pattern match at the start of the text? (No flag \<^verbatim>\<open>i\<close>: characters are compared as they are.)\<close>

fun matchesAt :: "atom list \<Rightarrow> string \<Rightarrow> bool" where
  "matchesAt [] s = True"
| "matchesAt (a # as) [] = False"
| "matchesAt (a # as) (d # ds) = (matchAtom a d \<and> matchesAt as ds)"

text \<open>
  The replacement text of \<^verbatim>\<open>String.prototype.replace\<close>: \<^verbatim>\<open>$$\<close> is a dollar sign, \<^verbatim>\<open>$&\<close> the
  match, \<^verbatim>\<open>$`\<close> the text before it and \<^verbatim>\<open>$'\<close> the text after it; the patterns have no
  groups, so any other \<^verbatim>\<open>$\<close> stands for itself.
\<close>

fun expandReplacement :: "string \<Rightarrow> string \<Rightarrow> string \<Rightarrow> string \<Rightarrow> string" where
  "expandReplacement [] m pre post = []"
| "expandReplacement [c] m pre post = [c]"
| "expandReplacement (c # d # r) m pre post =
     (if c = CHR ''$'' \<and> d = CHR ''$'' then CHR ''$'' # expandReplacement r m pre post
      else if c = CHR ''$'' \<and> d = CHR ''&'' then m @ expandReplacement r m pre post
      else if c = CHR ''$'' \<and> d = CHR 0x60 then pre @ expandReplacement r m pre post
      else if c = CHR ''$'' \<and> d = CHR 0x27 then post @ expandReplacement r m pre post
      else c # expandReplacement (d # r) m pre post)"

text \<open>
  \<^verbatim>\<open>text.replace(regex, repl)\<close> with the flag \<^verbatim>\<open>g\<close>: scan from the left, replace a match
  and go on behind it (one character further after an empty match). \<open>pre\<close> is the text
  already scanned.
\<close>

function replaceGlobal :: "atom list \<Rightarrow> string \<Rightarrow> string \<Rightarrow> string \<Rightarrow> string" where
  "replaceGlobal p r pre [] = (if p = [] then expandReplacement r [] pre [] else [])"
| "replaceGlobal p r pre (c # cs) =
     (if matchesAt p (c # cs) then
        (if p = [] then expandReplacement r [] pre (c # cs) @ c # replaceGlobal p r (pre @ [c]) cs
         else expandReplacement r (take (length p) (c # cs)) pre (drop (length p) (c # cs))
              @ replaceGlobal p r (pre @ take (length p) (c # cs)) (drop (length p) (c # cs)))
      else c # replaceGlobal p r (pre @ [c]) cs)"
  by pat_completeness auto
termination
  by (relation "measure (\<lambda>(p, r, pre, s). length s)") auto

text \<open>
  One round of the \<^verbatim>\<open>forEach\<close> in \<^verbatim>\<open>readAndReplaceXML\<close>. An escaped pattern always
  lies in the modelled fragment (lemma \<open>parsePattern_escapeRegExp\<close> below), so the
  error branch is never taken.
\<close>

definition replaceOne :: "string \<Rightarrow> string \<Rightarrow> string \<Rightarrow> string result" where
  "replaceOne old newVal content =
     (case parsePattern (escapeRegExp old) of
        None \<Rightarrow> Inl (LibError ''Invalid regular expression'')
      | Some p \<Rightarrow> Inr (replaceGlobal p newVal [] content))"

fun replaceEntries :: "(string \<times> string) list \<Rightarrow> string \<Rightarrow> string result" where
  "replaceEntries [] content = Inr content"
| "replaceEntries ((old, newVal) # rest) content =
     bind (replaceOne old newVal content) (replaceEntries rest)"

definition REPLACEMENTS :: "(string \<times> string) list" where
  "REPLACEMENTS =
     [(''JORGE MEDINA GONZALEZ'', ''EDUARDO ROSALES PAZ''),
      (''MEGJ640107QSA'', ''ROPE6505115EA''),
      (''MEGJ640107HDFDNR07'', ''ROPE650511HDFSZD07''),
      (''facturas.jmg@outlook.com'', ''tiskamx@outlook.com'')]"

text \<open>
  The reading of "replace every occurrence of a literal" that the substitution pass is
  compared with: scan from the left, replace the literal where the text starts with it.
\<close>

fun literalReplaceAll :: "string \<Rightarrow> string \<Rightarrow> string \<Rightarrow> string" where
  "literalReplaceAll old new [] = []"
| "literalReplaceAll old new (c # cs) =
     (if old \<noteq> [] \<and> prefix old (c # cs)
      then new @ literalReplaceAll old new (drop (length old) (c # cs))
      else c # literalReplaceAll old new cs)"

text \<open>
  Two texts overlap when an occurrence of one can share characters with an occurrence of
  the other: one starts inside the other. A text is unbordered when two of its own
  occurrences cannot share characters.
\<close>

definition startsInside :: "string \<Rightarrow> string \<Rightarrow> bool" where
  "startsInside x m =
     list_ex (\<lambda>k. prefix x (drop k m) \<or> prefix (drop k m) x) [0..<length m]"

definition overlaps :: "string \<Rightarrow> string \<Rightarrow> bool" where
  "overlaps x y = (startsInside x y \<or> startsInside y x)"

definition unbordered :: "string \<Rightarrow> bool" where
  "unbordered x = (\<not> list_ex (\<lambda>k. prefix (drop k x) x) [1..<length x])"

fun pairwiseNonOverlapping :: "string list \<Rightarrow> bool" where
  "pairwiseNonOverlapping [] = True"
| "pairwiseNonOverlapping (x # xs) =
     (list_all (\<lambda>y. \<not> overlaps x y) xs \<and> pairwiseNonOverlapping xs)"

section \<open>Rendering the report\<close>

text \<open>ToString of a value inside a template literal; \<^verbatim>\<open>join\<close> as arrays use it.\<close>

fun joinWith :: "string \<Rightarrow> string list \<Rightarrow> string" where
  "joinWith sep [] = []"
| "joinWith sep [x] = x"
| "joinWith sep (x # y # ys) = x @ sep @ joinWith sep (y # ys)"

fun toStr :: "jsval \<Rightarrow> string" where
  "toStr JUndefined = ''undefined''"
| "toStr JNull = ''null''"
| "toStr (JBool b) = (if b then ''true'' else ''false'')"
| "toStr (JNum nonzero txt) = txt"
| "toStr (JStr s) = s"
| "toStr (JObj ps) = ''[object Object]''"
| "toStr (JArr xs ps) =
     joinWith '','' (map (\<lambda>x. if x = JUndefined \<or> x = JNull then [] else toStr x) xs)"

text \<open>
  A template literal is its static strings interleaved with the substitutions, which are
  evaluated from left to right; the first one that throws ends the evaluation. The
  static HTML, CSS and script text of the templates carries no data and is a parameter:
  \<open>strs i\<close> is the static string after the \<open>i\<close>-th substitution.
\<close>

fun interpolate :: "(nat \<Rightarrow> string) \<Rightarrow> nat \<Rightarrow> string result list \<Rightarrow> string result" where
  "interpolate strs i [] = Inr (strs i)"
| "interpolate strs i (p # ps) =
     bind p (\<lambda>v. bind (interpolate strs (Suc i) ps) (\<lambda>rest. Inr (strs i @ v @ rest)))"

text \<open>The substitution \<^verbatim>\<open>${ob.k}\<close>.\<close>

definition field :: "jsval \<Rightarrow> string \<Rightarrow> string result" where
  "field ob k = bind (getProp ob k) (\<lambda>v. Inr (toStr v))"

text \<open>
  What the script takes from outside: the XML parser and builder, the QR encoder, the
  number formatting of the locale (\<^verbatim>\<open>parseInt(x).toLocaleString()\<close> and
  \<^verbatim>\<open>parseFloat(x).toLocaleString()\<close> as functions of the text of \<^verbatim>\<open>x\<close>), the clock, the
  static text of the three templates, and whether the file system accepts a write or the
  creation of a directory.
\<close>

record host =
  xmlParse :: "string \<Rightarrow> jsval result"
  xmlBuild :: "jsval \<Rightarrow> string result"
  qrToDataURL :: "string \<Rightarrow> nat \<Rightarrow> string result"
  localeInt :: "string \<Rightarrow> string"
  localeFloat :: "string \<Rightarrow> string"
  isoNow :: string
  pageText :: "nat \<Rightarrow> string"
  cardText :: "nat \<Rightarrow> string"
  readmeText :: "nat \<Rightarrow> string"
  canWrite :: "string \<Rightarrow> bool"
  canMkdir :: "string \<Rightarrow> bool"

record config =
  QR_TARGET_URL :: string
  QR_SIZE :: nat
  INPUT_FILE :: string
  OUTPUT_XML :: string
  OUTPUT_HTML :: string
  OUTPUT_README :: string

definition CONFIG :: config where
  "CONFIG = \<lparr>
     QR_TARGET_URL = ''https://alt-site.example.com/contrato/585748'',
     QR_SIZE = 200,
     INPUT_FILE = ''SAS-1.2-202303-585748.xml'',
     OUTPUT_XML = ''dist/contratoSocial.updated.xml'',
     OUTPUT_HTML = ''dist/index.html'',
     OUTPUT_README = ''dist/README.md'' \<rparr>"

text \<open>The card of one document: the callback of \<^verbatim>\<open>documento.map\<close>.\<close>

definition documentCard :: "host \<Rightarrow> jsval \<Rightarrow> string result" where
  "documentCard h doc =
     interpolate (cardText h) 0
       [field doc ''descripcion'', field doc ''uri'', field doc ''uri'',
        field doc ''uri'', field doc ''uri'', field doc ''uri'']"

fun mapM :: "('a \<Rightarrow> 'b result) \<Rightarrow> 'a list \<Rightarrow> 'b list result" where
  "mapM f [] = Inr []"
| "mapM f (x # xs) = bind (f x) (\<lambda>y. bind (mapM f xs) (\<lambda>ys. Inr (y # ys)))"

definition noDocumentsNotice :: string where
  \<open>noDocumentsNotice =
     ''<p style="color: #6b7280; text-align: center; padding: 2rem;">No hay documentos disponibles</p>''\<close>

text \<open>
  \<^verbatim>\<open>data.documentos ? data.documentos.documento.map(doc => ...).join('') : '<p ...>'\<close>.
  Only an array has \<^verbatim>\<open>map\<close>.
\<close>

definition documentsSection :: "host \<Rightarrow> jsval \<Rightarrow> string result" where
  "documentsSection h data =
     bind (getProp data ''documentos'') (\<lambda>documentos.
       if truthy documentos then
         bind (getProp documentos ''documento'') (\<lambda>documento.
           case documento of
             JArr docs ps \<Rightarrow> bind (mapM (documentCard h) docs) (\<lambda>cards. Inr (concat cards))
           | JUndefined \<Rightarrow> Inl (TypeError ''Cannot read properties of undefined (reading map)'')
           | JNull \<Rightarrow> Inl (TypeError ''Cannot read properties of null (reading map)'')
           | _ \<Rightarrow> Inl (TypeError ''data.documentos.documento.map is not a function''))
       else Inr noDocumentsNotice)"

definition qrPlaceholder :: string where
  \<open>qrPlaceholder =
     ''<div style="width: 200px; height: 200px; background: #f8f9fa; border: 2px dashed #dee2e6; border-radius: 12px; display: flex; align-items: center; justify-content: center; color: #6c757d;">QR Code no disponible</div>''\<close>

text \<open>\<^verbatim>\<open>qrDataURL ? `<img src="${qrDataURL}" alt="QR Code" class="qr-code">` : '<div ...>'\<close>.\<close>

definition qrImage :: "jsval \<Rightarrow> string" where
  \<open>qrImage qrDataURL =
     (if truthy qrDataURL
      then ''<img src="'' @ toStr qrDataURL @ ''" alt="QR Code" class="qr-code">''
      else qrPlaceholder)\<close>

definition buildHTML :: "host \<Rightarrow> jsval \<Rightarrow> jsval \<Rightarrow> string result" where
  "buildHTML h xmlObj qrDataURL =
     bind (getProp xmlObj ''contratoSocial'') (\<lambda>data.
     bind (getProp data ''personaMoral'') (\<lambda>personaMoral.
     bind (getProp data ''accionistas'') (\<lambda>accionistas.
     bind (getProp accionistas ''accionista'') (\<lambda>accionista.
     bind (getProp personaMoral ''domicilio'') (\<lambda>domicilio.
     interpolate (pageText h) 0
       [field personaMoral ''nombreMoral'',
        field personaMoral ''nombreMoral'',
        field personaMoral ''nombreMoral'',
        field personaMoral ''nombreRepresentanteLegal'',
        field accionista ''rfc'',
        field accionista ''curp'',
        field personaMoral ''correoElectronico'',
        field personaMoral ''fechaConstitucion'',
        field domicilio ''calle'',
        field domicilio ''numeroExterior'',
        field domicilio ''colonia'',
        field domicilio ''cp'',
        field domicilio ''localidad'',
        field domicilio ''entidadFederativa'',
        field domicilio ''pais'',
        field personaMoral ''claveLada'',
        field personaMoral ''telefono'',
        field personaMoral ''actividadPrincipal'',
        field accionista ''nombre'',
        field accionista ''apellidoPaterno'',
        field accionista ''apellidoMaterno'',
        field accionista ''rfc'',
        field accionista ''curp'',
        field accionista ''nacionalidad'',
        bind (field accionista ''numeroAccionesFijas'') (\<lambda>s. Inr (localeInt h s)),
        bind (field accionista ''numeroAccionesVariables'') (\<lambda>s. Inr (localeInt h s)),
        field accionista ''esRepresentanteLegal'',
        documentsSection h data,
        field personaMoral ''folioTramite'',
        Inr (qrImage qrDataURL),
        Inr (QR_TARGET_URL CONFIG),
        Inr (QR_TARGET_URL CONFIG),
        field personaMoral ''folioTramite'',
        field personaMoral ''claveTramite'',
        field personaMoral ''folioTramite'',
        field personaMoral ''valorAccion'',
        bind (field personaMoral ''capitalSocial'') (\<lambda>s. Inr (localeFloat h s)),
        field personaMoral ''duracion'',
        bind (getProp data ''informacion'') (\<lambda>informacion. field informacion ''tipoDocumento'')])))))"

definition createDeployREADME :: "host \<Rightarrow> string" where
  "createDeployREADME h =
     readmeText h 0 @ QR_TARGET_URL CONFIG @ readmeText h 1 @ isoNow h @ readmeText h 2"

section \<open>The orchestrator and its effects\<close>

text \<open>
  The world of a run: the files and directories by path, the environment variables of
  the process, and the trace of what the run did (console output by message, without
  the pictograph that starts each message; file system and encoder calls).
\<close>

datatype event =
    Log string
  | LogError string error
  | FsExists string
  | FsMkdir string
  | FsRead string
  | FsWrite string
  | QrCall string nat
  | Exit nat

record world =
  files :: "string \<Rightarrow> string option"
  dirs :: "string set"
  env :: "string \<Rightarrow> string option"
  trace :: "event list"

type_synonym 'a io = "world \<Rightarrow> 'a result \<times> world"

definition ioBind :: "'a io \<Rightarrow> ('a \<Rightarrow> 'b io) \<Rightarrow> 'b io" where
  "ioBind m f w = (case m w of (Inl e, w') \<Rightarrow> (Inl e, w') | (Inr x, w') \<Rightarrow> f x w')"

definition pure :: "'a result \<Rightarrow> 'a io" where
  "pure r w = (r, w)"

definition emit :: "event \<Rightarrow> world \<Rightarrow> world" where
  "emit ev w = w\<lparr>trace := trace w @ [ev]\<rparr>"

definition consoleLog :: "string \<Rightarrow> unit io" where
  "consoleLog msg w = (Inr (), emit (Log msg) w)"

definition existsSync :: "string \<Rightarrow> bool io" where
  "existsSync p w = (Inr (p \<in> dirs w \<or> p \<in> dom (files w)), emit (FsExists p) w)"

definition mkdirSync :: "host \<Rightarrow> string \<Rightarrow> unit io" where
  "mkdirSync h p w =
     (if canMkdir h p then (Inr (), (emit (FsMkdir p) w)\<lparr>dirs := insert p (dirs w)\<rparr>)
      else (Inl (IOError (''mkdir '' @ p)), emit (FsMkdir p) w))"

definition readFileSync :: "string \<Rightarrow> string io" where
  "readFileSync p w =
     (case files w p of
        None \<Rightarrow> (Inl (IOError (''ENOENT: no such file or directory, open '' @ p)), emit (FsRead p) w)
      | Some content \<Rightarrow> (Inr content, emit (FsRead p) w))"

text \<open>A write that the file system refuses leaves the files as they are.\<close>

definition writeFileSync :: "host \<Rightarrow> string \<Rightarrow> string \<Rightarrow> unit io" where
  "writeFileSync h p content w =
     (if canWrite h p then (Inr (), (emit (FsWrite p) w)\<lparr>files := (files w)(p \<mapsto> content)\<rparr>)
      else (Inl (IOError (''open '' @ p)), emit (FsWrite p) w))"

definition ensureDistDir :: "host \<Rightarrow> unit io" where
  "ensureDistDir h =
     ioBind (existsSync ''dist'') (\<lambda>there.
       if \<not> there then mkdirSync h ''dist'' else pure (Inr ()))"

text \<open>\<^verbatim>\<open>readAndReplaceXML\<close>, with the table of replacements as a parameter.\<close>

definition readAndReplaceXML :: "(string \<times> string) list \<Rightarrow> string io" where
  "readAndReplaceXML reps =
     ioBind (readFileSync (INPUT_FILE CONFIG)) (\<lambda>xmlContent.
       pure (replaceEntries reps xmlContent))"

text \<open>
  \<^verbatim>\<open>generateQRCode\<close>: the encoder is called with the configured URL and width (and the
  fixed margin and colours); when it throws, the error is logged and the result is
  \<^verbatim>\<open>null\<close>.
\<close>

definition generateQRCode :: "host \<Rightarrow> jsval io" where
  "generateQRCode h w =
     (let w1 = emit (QrCall (QR_TARGET_URL CONFIG) (QR_SIZE CONFIG)) w in
      case qrToDataURL h (QR_TARGET_URL CONFIG) (QR_SIZE CONFIG) of
        Inr qrDataURL \<Rightarrow> (Inr (JStr qrDataURL), w1)
      | Inl e \<Rightarrow> (Inr JNull, emit (LogError ''QR Code generation failed:'' e) w1))"

text \<open>The \<^verbatim>\<open>try\<close> block of \<^verbatim>\<open>transform\<close>.\<close>

definition transformSteps :: "(string \<times> string) list \<Rightarrow> host \<Rightarrow> unit io" where
  "transformSteps reps h =
     ioBind (consoleLog ''Starting XML transformation...'') (\<lambda>_.
     ioBind (ensureDistDir h) (\<lambda>_.
     ioBind (consoleLog ''Reading and replacing XML content...'') (\<lambda>_.
     ioBind (readAndReplaceXML reps) (\<lambda>xmlContent.
     ioBind (consoleLog ''Parsing and patching structured fields...'') (\<lambda>_.
     ioBind (pure (parseAndPatchXML (xmlParse h) xmlContent)) (\<lambda>xmlObj.
     ioBind (consoleLog ''Serializing XML...'') (\<lambda>_.
     ioBind (pure (serializeXML (xmlBuild h) xmlObj)) (\<lambda>serializedXML.
     ioBind (writeFileSync h (OUTPUT_XML CONFIG) serializedXML) (\<lambda>_.
     ioBind (consoleLog (''XML written to '' @ OUTPUT_XML CONFIG)) (\<lambda>_.
     ioBind (consoleLog ''Generating QR code...'') (\<lambda>_.
     ioBind (generateQRCode h) (\<lambda>qrDataURL.
     ioBind (consoleLog ''Building HTML...'') (\<lambda>_.
     ioBind (pure (buildHTML h xmlObj qrDataURL)) (\<lambda>htmlContent.
     ioBind (writeFileSync h (OUTPUT_HTML CONFIG) htmlContent) (\<lambda>_.
     ioBind (consoleLog (''HTML written to '' @ OUTPUT_HTML CONFIG)) (\<lambda>_.
     ioBind (consoleLog ''Creating deployment README...'') (\<lambda>_.
     ioBind (writeFileSync h (OUTPUT_README CONFIG) (createDeployREADME h)) (\<lambda>_.
     ioBind (consoleLog (''README written to '' @ OUTPUT_README CONFIG)) (\<lambda>_.
     ioBind (consoleLog ''Transformation complete!'') (\<lambda>_.
     ioBind (consoleLog ''Files created in dist/ directory'') (\<lambda>_.
     consoleLog ''Ready for deployment to any static host'')))))))))))))))))))))"

text \<open>
  \<^verbatim>\<open>transform\<close> with the table of replacements as a parameter: the exit code of the
  process and the world it leaves. The \<^verbatim>\<open>catch\<close> logs the error and exits with 1; a run
  that reaches the end of the \<^verbatim>\<open>try\<close> block ends with the exit code 0.
\<close>

definition transformWith :: "(string \<times> string) list \<Rightarrow> host \<Rightarrow> world \<Rightarrow> nat \<times> world" where
  "transformWith reps h w =
     (case transformSteps reps h w of
        (Inr _, w') \<Rightarrow> (0, w')
      | (Inl e, w') \<Rightarrow> (1, emit (Exit 1) (emit (LogError ''Transformation failed:'' e) w')))"

definition transform :: "host \<Rightarrow> world \<Rightarrow> nat \<times> world" where
  "transform h w = transformWith REPLACEMENTS h w"

text \<open>The table applied with the literal reading, round after round.\<close>

fun literalReplaceEntries :: "(string \<times> string) list \<Rightarrow> string \<Rightarrow> string" where
  "literalReplaceEntries [] t = t"
| "literalReplaceEntries ((old, new) # rest) t =
     literalReplaceEntries rest (literalReplaceAll old new t)"

section \<open>Notions used in the statements\<close>

text \<open>A result that is a value, not an error.\<close>

definition isOK :: "'a result \<Rightarrow> bool" where
  "isOK r = (case r of Inl e \<Rightarrow> False | Inr v \<Rightarrow> True)"

text \<open>
  The output paths, and the frame of a run: files at other paths keep their content and
  every write traced goes to an output path.
\<close>

definition outputs :: "string set" where
  "outputs = {OUTPUT_XML CONFIG, OUTPUT_HTML CONFIG, OUTPUT_README CONFIG}"

definition frame :: "world \<Rightarrow> world \<Rightarrow> bool" where
  "frame w w' \<longleftrightarrow>
     (\<forall>p. p \<notin> outputs \<longrightarrow> files w' p = files w p)
     \<and> (\<exists>evs. trace w' = trace w @ evs \<and> (\<forall>p. FsWrite p \<in> set evs \<longrightarrow> p \<in> outputs))"

definition keepsFrame :: "'a io \<Rightarrow> bool" where
  "keepsFrame m \<longleftrightarrow> (\<forall>w. frame w (snd (m w)))"

text \<open>The identity fields of the principal holder and of the entity record, and the values the patch gives them.\<close>

definition identityPaths :: "string list list" where
  "identityPaths =
     [[''contratoSocial'', ''accionistas'', ''accionista'', ''rfc''],
      [''contratoSocial'', ''accionistas'', ''accionista'', ''curp''],
      [''contratoSocial'', ''accionistas'', ''accionista'', ''nombre''],
      [''contratoSocial'', ''accionistas'', ''accionista'', ''apellidoPaterno''],
      [''contratoSocial'', ''accionistas'', ''accionista'', ''apellidoMaterno''],
      [''contratoSocial'', ''personaMoral'', ''nombreRepresentanteLegal'']]"

definition identityValues :: "jsval result list" where
  "identityValues =
     [Inr (JStr ''ROPE6505115EA''), Inr (JStr ''ROPE650511HDFSZD07''), Inr (JStr ''EDUARDO''),
      Inr (JStr ''ROSALES''), Inr (JStr ''PAZ''), Inr (JStr ''EDUARDO ROSALES PAZ'')]"

section \<open>Concrete inputs\<close>

text \<open>
  A small document of the schema (with further children of the root as a parameter), a
  host whose parser returns a given tree, and a world that holds the input file.
\<close>

definition samplePersonaMoral :: jsval where
  "samplePersonaMoral = JObj
     [(''nombreMoral'', JStr ''EJEMPLO SAS''),
      (''nombreRepresentanteLegal'', JStr ''JORGE MEDINA GONZALEZ''),
      (''claveTramite'', JStr ''SAS-MEGJ640107QSA-585748''),
      (''folioTramite'', JNum True ''585748''),
      (''domicilio'', JObj [(''calle'', JStr ''REFORMA''), (''cp'', JNum True ''6600'')])]"

definition sampleAccionista :: jsval where
  "sampleAccionista = JObj
     [(''nombre'', JStr ''JORGE''),
      (''apellidoPaterno'', JStr ''MEDINA''),
      (''apellidoMaterno'', JStr ''GONZALEZ''),
      (''rfc'', JStr ''MEGJ640107QSA''),
      (''curp'', JStr ''MEGJ640107HDFDNR07''),
      (''numeroAccionesFijas'', JNum True ''1000'')]"

definition sampleTree :: "(string \<times> jsval) list \<Rightarrow> jsval" where
  "sampleTree extra = JObj
     [(''contratoSocial'', JObj
        ([(''informacion'', JObj [(''tipoDocumento'', JStr ''Contrato Social'')]),
          (''personaMoral'', samplePersonaMoral),
          (''accionistas'', JObj [(''accionista'', sampleAccionista)])] @ extra))]"

definition sampleHost :: "jsval result \<Rightarrow> string result \<Rightarrow> host" where
  "sampleHost parsed qr = \<lparr>
     xmlParse = (\<lambda>content. parsed),
     xmlBuild = (\<lambda>xmlObj. Inr ''<contratoSocial/>''),
     qrToDataURL = (\<lambda>url size. qr),
     localeInt = (\<lambda>s. s),
     localeFloat = (\<lambda>s. s),
     isoNow = ''2025-09-10T19:55:02.809Z'',
     pageText = (\<lambda>i. ''|''),
     cardText = (\<lambda>i. ''#''),
     readmeText = (\<lambda>i. ''~''),
     canWrite = (\<lambda>p. True),
     canMkdir = (\<lambda>p. True) \<rparr>"

definition sampleWorld :: world where
  "sampleWorld = \<lparr>
     files = [INPUT_FILE CONFIG \<mapsto> ''<contratoSocial/>'', ''notes.txt'' \<mapsto> ''keep''],
     dirs = {},
     env = Map.empty,
     trace = [] \<rparr>"

text \<open>A tree that passes the patch but has no address record, so that the report cannot be rendered.\<close>

definition brokenTree :: jsval where
  "brokenTree = JObj
     [(''contratoSocial'', JObj
        [(''personaMoral'', JObj [(''claveTramite'', JStr ''SAS-585748'')]),
         (''accionistas'', JObj [(''accionista'', JObj [])])])]"

text \<open>A table whose old literals overlap: in \<^verbatim>\<open>abc\<close> both occur and share the \<^verbatim>\<open>b\<close>.\<close>

definition overlappingTable :: "(string \<times> string) list" where
  "overlappingTable = [(''ab'', ''1''), (''bc'', ''2'')]"

text \<open>Two signature elements under the root: an XML-DSig block and an unrelated element of the same name.\<close>

definition mixedSignatures :: jsval where
  "mixedSignatures = JArr
     [JObj [(''@_xmlns'', JStr ''http://www.w3.org/2000/09/xmldsig#''),
            (''SignatureValue'', JStr ''AAAA'')],
      JObj [(''@_xmlns'', JStr ''urn:example:sello''), (''#text'', JStr ''sello'')]] []"

text \<open>A document list with one entry: the parser yields an object, not an array, for a tag that occurs once.\<close>

definition singleDocument :: "(string \<times> jsval) list" where
  "singleDocument =
     [(''documentos'', JObj
        [(''documento'', JObj
           [(''descripcion'', JStr ''Acta constitutiva''),
            (''uri'', JStr ''https://example.com/acta.pdf'')])])]"

text \<open>The value that \<^verbatim>\<open>generateQRCode\<close> returns.\<close>

definition qrResult :: "host \<Rightarrow> jsval" where
  "qrResult h =
     (case qrToDataURL h (QR_TARGET_URL CONFIG) (QR_SIZE CONFIG) of
        Inr qrDataURL \<Rightarrow> JStr qrDataURL
      | Inl e \<Rightarrow> JNull)"

text \<open>An action that neither reads nor changes the environment variables.\<close>

definition envFree :: "'a io \<Rightarrow> bool" where
  "envFree m \<longleftrightarrow> (\<forall>w E. m (w\<lparr>env := E\<rparr>) = (fst (m w), (snd (m w))\<lparr>env := E\<rparr>))"



declare interpolate.simps [simp del]

section \<open>Basic facts\<close>

lemma bind_Inr [simp]: "bind (Inr x) f = f x"
  by (simp add: bind_def)

lemma bind_Inl [simp]: "bind (Inl e) f = Inl e"
  by (simp add: bind_def)

lemma bind_Inr_iff: "bind m f = Inr y \<longleftrightarrow> (\<exists>x. m = Inr x \<and> f x = Inr y)"
  by (cases m) (simp_all add: bind_def)

lemma isOK_simps [simp]: "isOK (Inr v)" "\<not> isOK (Inl e)"
  by (simp_all add: isOK_def)

lemma isOK_bind: "isOK (bind m f) \<longleftrightarrow> (\<exists>x. m = Inr x \<and> isOK (f x))"
  by (cases m) simp_all

lemma isOK_projr: "isOK r \<Longrightarrow> r = Inr (projr r)"
  by (cases r) simp_all

lemma ioBind_eval: "ioBind m f w = (case m w of (Inl e, w') \<Rightarrow> (Inl e, w') | (Inr x, w') \<Rightarrow> f x w')"
  by (simp add: ioBind_def)

lemmas io_defs = consoleLog_def existsSync_def mkdirSync_def readFileSync_def
  writeFileSync_def ensureDistDir_def readAndReplaceXML_def generateQRCode_def pure_def
  emit_def

lemma outputs_distinct:
  "OUTPUT_XML CONFIG \<noteq> OUTPUT_HTML CONFIG" "OUTPUT_XML CONFIG \<noteq> OUTPUT_README CONFIG"
  "OUTPUT_HTML CONFIG \<noteq> OUTPUT_README CONFIG"
  "INPUT_FILE CONFIG \<noteq> OUTPUT_XML CONFIG" "INPUT_FILE CONFIG \<noteq> OUTPUT_HTML CONFIG"
  "INPUT_FILE CONFIG \<noteq> OUTPUT_README CONFIG"
  by (simp_all add: CONFIG_def)

lemmas sample_defs = sampleHost_def sampleWorld_def sampleTree_def samplePersonaMoral_def
  sampleAccionista_def

subsection \<open>Reading after writing a property\<close>

lemma getProp_setProp_same: "setProp ob k v = Inr ob' \<Longrightarrow> getProp ob' k = Inr v"
  by (cases ob) (auto simp: update_conv')

lemma getProp_setProp_other:
  "setProp ob k v = Inr ob' \<Longrightarrow> k' \<noteq> k \<Longrightarrow> getProp ob' k' = getProp ob k'"
  by (cases ob) (auto simp: update_conv')






section \<open>Signature removal\<close>




lemma patchTree_steps:
  assumes "patchTree xmlObj = Inr out"
  shows "\<exists>cs cs1 pm pm1 cs2 accs acc acc1 accs1 cs3.
           getProp xmlObj ''contratoSocial'' = Inr cs \<and> removeSignature cs = Inr cs1
         \<and> getProp cs1 ''personaMoral'' = Inr pm \<and> patchPersonaMoral pm = Inr pm1
         \<and> setProp cs1 ''personaMoral'' pm1 = Inr cs2
         \<and> getProp cs2 ''accionistas'' = Inr accs \<and> getProp accs ''accionista'' = Inr acc
         \<and> patchAccionista acc = Inr acc1 \<and> setProp accs ''accionista'' acc1 = Inr accs1
         \<and> setProp cs2 ''accionistas'' accs1 = Inr cs3
         \<and> setProp xmlObj ''contratoSocial'' cs3 = Inr out"
  using assms unfolding patchTree_def bind_Inr_iff by blast




lemma sample_patch_ok: "isOK (patchTree (sampleTree []))"
  by (simp add: patchTree_def removeSignature_def patchPersonaMoral_def patchAccionista_def
        sample_defs)


lemma broken_patch_ok: "isOK (patchTree brokenTree)"
  by (simp add: patchTree_def removeSignature_def patchPersonaMoral_def patchAccionista_def
        brokenTree_def)

text \<open>
  Claim C2, at a root with two \<^verbatim>\<open>Signature\<close> elements, one XML-DSig block and one unrelated
  element: the filter of the second \<^verbatim>\<open>if\<close> would keep the unrelated element, but the
  patch succeeds with no \<^verbatim>\<open>Signature\<close> property left at all, the unrelated element having
  been deleted with the field.
\<close>

theorem C2_signature_array_deleted_whole:
  "filterM keepItem (elements mixedSignatures)
     = Inr [JObj [(''@_xmlns'', JStr ''urn:example:sello''), (''#text'', JStr ''sello'')]]
   \<and> isOK (patchTree (sampleTree [(''Signature'', mixedSignatures)]))
   \<and> getPath (projr (patchTree (sampleTree [(''Signature'', mixedSignatures)])))
        [''contratoSocial'', ''Signature''] = Inr JUndefined"
  by (simp add: patchTree_def removeSignature_def patchPersonaMoral_def patchAccionista_def
        sample_defs mixedSignatures_def keepItem_def)

section \<open>Identity fields\<close>

lemma patchAccionista_fields:
  assumes "patchAccionista acc = Inr acc1"
  shows "getProp acc1 ''rfc'' = Inr (JStr ''ROPE6505115EA'')"
    and "getProp acc1 ''curp'' = Inr (JStr ''ROPE650511HDFSZD07'')"
    and "getProp acc1 ''nombre'' = Inr (JStr ''EDUARDO'')"
    and "getProp acc1 ''apellidoPaterno'' = Inr (JStr ''ROSALES'')"
    and "getProp acc1 ''apellidoMaterno'' = Inr (JStr ''PAZ'')"
  using assms by (cases acc; auto simp: patchAccionista_def update_conv')+

lemma patchPersonaMoral_field:
  assumes "patchPersonaMoral pm = Inr pm1"
  shows "getProp pm1 ''nombreRepresentanteLegal'' = Inr (JStr ''EDUARDO ROSALES PAZ'')"
proof -
  from assms obtain p1 ct where
    s1: "setProp pm ''nombreRepresentanteLegal'' (JStr ''EDUARDO ROSALES PAZ'') = Inr p1"
    and c: "(case ct of
               JStr s \<Rightarrow> setProp p1 ''claveTramite''
                           (JStr (replaceFirst ''MEGJ640107QSA'' ''ROPE6505115EA'' s))
             | JUndefined \<Rightarrow> Inl (TypeError ''Cannot read properties of undefined (reading replace)'')
             | JNull \<Rightarrow> Inl (TypeError ''Cannot read properties of null (reading replace)'')
             | _ \<Rightarrow> Inl (TypeError ''personaMoral.claveTramite.replace is not a function'')) = Inr pm1"
    unfolding patchPersonaMoral_def bind_Inr_iff by blast
  from c obtain v where s2: "setProp p1 ''claveTramite'' v = Inr pm1"
    by (cases ct) simp_all
  from getProp_setProp_other[OF s2, of "''nombreRepresentanteLegal''"]
    getProp_setProp_same[OF s1] show ?thesis by simp
qed

lemma patchTree_identity:
  assumes "patchTree xmlObj = Inr out"
  shows "map (getPath out) identityPaths = identityValues"
proof -
  from patchTree_steps[OF assms] obtain cs1 pm pm1 cs2 accs acc acc1 accs1 cs3 where
    pm: "patchPersonaMoral pm = Inr pm1"
    and s1: "setProp cs1 ''personaMoral'' pm1 = Inr cs2"
    and acc: "patchAccionista acc = Inr acc1"
    and s2: "setProp accs ''accionista'' acc1 = Inr accs1"
    and s3: "setProp cs2 ''accionistas'' accs1 = Inr cs3"
    and s4: "setProp xmlObj ''contratoSocial'' cs3 = Inr out" by blast
  have r: "getProp out ''contratoSocial'' = Inr cs3" by (rule getProp_setProp_same[OF s4])
  have a: "getProp cs3 ''accionistas'' = Inr accs1" by (rule getProp_setProp_same[OF s3])
  have b: "getProp accs1 ''accionista'' = Inr acc1" by (rule getProp_setProp_same[OF s2])
  have p: "getProp cs3 ''personaMoral'' = Inr pm1"
    using getProp_setProp_other[OF s3, of "''personaMoral''"] getProp_setProp_same[OF s1]
    by simp
  show ?thesis
    by (simp add: identityPaths_def identityValues_def r a b p
          patchAccionista_fields[OF acc] patchPersonaMoral_field[OF pm])
qed

text \<open>
  Claim C10. Whatever two documents are parsed and patched, the patched trees agree on
  the principal holder's \<^verbatim>\<open>rfc\<close>, \<^verbatim>\<open>curp\<close>, \<^verbatim>\<open>nombre\<close>, \<^verbatim>\<open>apellidoPaterno\<close> and
  \<^verbatim>\<open>apellidoMaterno\<close> and on the entity record's \<^verbatim>\<open>nombreRepresentanteLegal\<close>: each holds
  its fixed constant.
\<close>

theorem C10:
  assumes "parseAndPatchXML parser xml1 = Inr out1"
      and "parseAndPatchXML parser xml2 = Inr out2"
  shows "map (getPath out1) identityPaths = map (getPath out2) identityPaths
       \<and> map (getPath out1) identityPaths = identityValues"
proof -
  from assms obtain t1 t2 where "patchTree t1 = Inr out1" "patchTree t2 = Inr out2"
    by (auto simp: parseAndPatchXML_def bind_Inr_iff)
  then show ?thesis by (simp add: patchTree_identity)
qed

theorem C10_witness:
  "map (getPath (projr (patchTree (sampleTree [])))) identityPaths
     = map (getPath (projr (patchTree brokenTree))) identityPaths"
proof -
  let ?parser = "\<lambda>content. if content = ''a'' then Inr (sampleTree []) else Inr brokenTree"
  have 1: "parseAndPatchXML ?parser ''a'' = Inr (projr (patchTree (sampleTree [])))"
    using isOK_projr[OF sample_patch_ok] by (simp add: parseAndPatchXML_def)
  have 2: "parseAndPatchXML ?parser ''b'' = Inr (projr (patchTree brokenTree))"
    using isOK_projr[OF broken_patch_ok] by (simp add: parseAndPatchXML_def)
  from C10[OF 1 2] show ?thesis by (rule conjunct1)
qed

section \<open>Text substitution\<close>

subsection \<open>The escaped pattern is the literal\<close>

lemma backslash_syntax: "backslash \<in> set syntaxChars"
  by (simp add: syntaxChars_def)

lemma dot_syntax: "CHR ''.'' \<in> set syntaxChars"
  by (simp add: syntaxChars_def)

lemma parsePattern_plain:
  "c \<notin> set syntaxChars \<Longrightarrow> parsePattern (c # rest) = map_option ((#) (Lit c)) (parsePattern rest)"
  using backslash_syntax dot_syntax by (cases rest) auto

lemma parsePattern_escaped:
  "c \<in> set syntaxChars \<Longrightarrow> parsePattern (backslash # c # rest) = map_option ((#) (Lit c)) (parsePattern rest)"
  by simp

lemma parsePattern_escapeRegExp: "parsePattern (escapeRegExp s) = Some (map Lit s)"
proof (induction s)
  case Nil
  show ?case by (simp add: escapeRegExp_def)
next
  case (Cons c s)
  show ?case
  proof (cases "c \<in> set syntaxChars")
    case True
    then have "escapeRegExp (c # s) = backslash # c # escapeRegExp s"
      by (simp add: escapeRegExp_def)
    with parsePattern_escaped[OF True, of "escapeRegExp s"] Cons.IH show ?thesis by simp
  next
    case False
    then have "escapeRegExp (c # s) = c # escapeRegExp s"
      by (simp add: escapeRegExp_def)
    with parsePattern_plain[OF False, of "escapeRegExp s"] Cons.IH show ?thesis by simp
  qed
qed

lemma matchesAt_literal: "matchesAt (map Lit old) s = prefix old s"
proof (induction old arbitrary: s)
  case Nil
  show ?case by simp
next
  case (Cons c old)
  show ?case by (cases s) (simp_all add: Cons.IH)
qed

lemma expandReplacement_plain:
  "CHR ''$'' \<notin> set r \<Longrightarrow> expandReplacement r m pre post = r"
  by (induction r m pre post rule: expandReplacement.induct) auto

lemma replaceGlobal_literal:
  assumes "old \<noteq> []" "CHR ''$'' \<notin> set r"
  shows "replaceGlobal (map Lit old) r pre s = literalReplaceAll old r s"
  using assms
proof (induction old r s arbitrary: pre rule: literalReplaceAll.induct)
  case (1 old new)
  then show ?case by simp
next
  case (2 old new c cs)
  show ?case
  proof (cases "prefix old (c # cs)")
    case True
    with 2 show ?thesis
      by (simp add: matchesAt_literal expandReplacement_plain del: drop_Suc_Cons take_Suc_Cons)
  next
    case False
    with 2 show ?thesis by (simp add: matchesAt_literal)
  qed
qed

lemma replaceOne_literal:
  assumes "old \<noteq> []" "CHR ''$'' \<notin> set new"
  shows "replaceOne old new content = Inr (literalReplaceAll old new content)"
  using assms by (simp add: replaceOne_def parsePattern_escapeRegExp replaceGlobal_literal)

lemma replaceEntries_literal:
  "list_all (\<lambda>(old, new). old \<noteq> [] \<and> CHR ''$'' \<notin> set new) reps \<Longrightarrow>
   replaceEntries reps t = Inr (literalReplaceEntries reps t)"
  by (induction reps arbitrary: t) (auto simp: replaceOne_literal)

subsection \<open>Every occurrence is replaced\<close>

lemma not_startsInside:
  assumes "\<not> startsInside x m" "k < length m"
  shows "\<not> prefix x (drop k m @ b)"
proof
  assume "prefix x (drop k m @ b)"
  then have "prefix x (drop k m) \<or> prefix (drop k m) x"
    by (auto simp: prefix_append)
  with assms show False
    by (auto simp: startsInside_def list_ex_iff)
qed

lemma literalReplaceAll_skip:
  "(\<forall>k<length m. \<not> prefix old (drop k m @ b)) \<Longrightarrow>
   literalReplaceAll old new (m @ b) = m @ literalReplaceAll old new b"
proof (induction m)
  case Nil
  show ?case by simp
next
  case (Cons c m)
  from Cons.prems have "\<not> prefix old ((c # m) @ b)" by (metis drop0 length_greater_0_conv list.distinct(1))
  moreover have "\<forall>k<length m. \<not> prefix old (drop k m @ b)"
  proof (intro allI impI)
    fix k assume "k < length m"
    then have "Suc k < length (c # m)" by simp
    with Cons.prems have "\<not> prefix old (drop (Suc k) (c # m) @ b)" by blast
    then show "\<not> prefix old (drop k m @ b)" by simp
  qed
  ultimately show ?case using Cons.IH by simp
qed

lemma literalReplaceAll_context:
  assumes ne: "old \<noteq> []"
      and straddle: "\<forall>k. 0 < k \<and> k < length old \<longrightarrow> \<not> prefix (drop k old) (m @ b)"
      and mid: "literalReplaceAll old new (m @ b) = m' @ literalReplaceAll old new b"
  shows "literalReplaceAll old new (a @ m @ b)
           = literalReplaceAll old new a @ m' @ literalReplaceAll old new b"
  using assms
proof (induction old new a rule: literalReplaceAll.induct)
  case (1 old new)
  then show ?case by simp
next
  case (2 old new c cs)
  show ?case
  proof (cases "prefix old (c # cs)")
    case True
    define rest where "rest = drop (length old) (c # cs)"
    from True have len: "length old \<le> length (c # cs)" by (rule prefix_length_le)
    from True have pre: "prefix old (c # (cs @ m @ b))"
      using prefix_prefix[of old "c # cs" "m @ b"] by simp
    from len have dr: "drop (length old) (c # (cs @ m @ b)) = rest @ m @ b"
      using drop_append[of "length old" "c # cs" "m @ b"] by (simp add: rest_def)
    from "2.prems"(1) True "2.IH"(1)[OF _ "2.prems"]
    have ih: "literalReplaceAll old new (rest @ m @ b)
                = literalReplaceAll old new rest @ m' @ literalReplaceAll old new b"
      by (simp add: rest_def)
    have "literalReplaceAll old new ((c # cs) @ m @ b)
            = new @ literalReplaceAll old new (rest @ m @ b)"
      using "2.prems"(1) pre dr by (simp del: drop_Suc_Cons)
    moreover have "literalReplaceAll old new (c # cs) = new @ literalReplaceAll old new rest"
      using "2.prems"(1) True by (simp add: rest_def del: drop_Suc_Cons)
    ultimately show ?thesis using ih by simp
  next
    case False
    have "\<not> prefix old ((c # cs) @ m @ b)"
    proof
      assume "prefix old ((c # cs) @ m @ b)"
      then have "prefix old (c # cs) \<or> (\<exists>us. old = (c # cs) @ us \<and> prefix us (m @ b))"
        by (simp only: prefix_append)
      with False obtain us where us: "old = (c # cs) @ us" "prefix us (m @ b)"
        by blast
      with False have "us \<noteq> []" by auto
      with us have "0 < length (c # cs) \<and> length (c # cs) < length old" by simp
      moreover from us have "drop (length (c # cs)) old = us" by simp
      ultimately show False using us(2) "2.prems"(2) by metis
    qed
    then have "literalReplaceAll old new ((c # cs) @ m @ b)
            = c # literalReplaceAll old new (cs @ m @ b)" by simp
    moreover from False have "literalReplaceAll old new (c # cs) = c # literalReplaceAll old new cs"
      by simp
    moreover from False "2.IH"(2)[OF _ "2.prems"]
    have "literalReplaceAll old new (cs @ m @ b)
            = literalReplaceAll old new cs @ m' @ literalReplaceAll old new b" by simp
    ultimately show ?thesis by simp
  qed
qed

lemma literalReplaceAll_keep:
  assumes "old \<noteq> []" "\<not> overlaps old m"
  shows "literalReplaceAll old new (a @ m @ b)
           = literalReplaceAll old new a @ m @ literalReplaceAll old new b"
proof (rule literalReplaceAll_context[OF assms(1)])
  from assms(2) have n1: "\<not> startsInside old m" and n2: "\<not> startsInside m old"
    by (auto simp: overlaps_def)
  show "\<forall>k. 0 < k \<and> k < length old \<longrightarrow> \<not> prefix (drop k old) (m @ b)"
  proof (intro allI impI)
    fix k assume k: "0 < k \<and> k < length old"
    show "\<not> prefix (drop k old) (m @ b)"
    proof
      assume "prefix (drop k old) (m @ b)"
      then have "prefix (drop k old) m \<or> prefix m (drop k old)"
        by (auto simp: prefix_append)
      with n2 k show False by (auto simp: startsInside_def list_ex_iff)
    qed
  qed
  show "literalReplaceAll old new (m @ b) = m @ literalReplaceAll old new b"
    using not_startsInside[OF n1] by (intro literalReplaceAll_skip) blast
qed

lemma literalReplaceAll_hit:
  assumes "old \<noteq> []" "unbordered old"
  shows "literalReplaceAll old new (a @ old @ b)
           = literalReplaceAll old new a @ new @ literalReplaceAll old new b"
proof (rule literalReplaceAll_context[OF assms(1)])
  show "\<forall>k. 0 < k \<and> k < length old \<longrightarrow> \<not> prefix (drop k old) (old @ b)"
  proof (intro allI impI)
    fix k assume k: "0 < k \<and> k < length old"
    show "\<not> prefix (drop k old) (old @ b)"
    proof
      assume "prefix (drop k old) (old @ b)"
      then have "prefix (drop k old) old \<or> (\<exists>us. drop k old = old @ us)"
        by (auto simp: prefix_append)
      moreover from k have "length (drop k old) < length old" by auto
      then have "\<not> (\<exists>us. drop k old = old @ us)"
        by (metis length_append not_add_less1)
      ultimately have "prefix (drop k old) old" by blast
      with assms(2) k show False by (auto simp: unbordered_def list_ex_iff)
    qed
  qed
  from assms(1) obtain x xs where old: "old = x # xs" by (cases old) auto
  have "prefix old (x # (xs @ b))" by (simp add: old)
  moreover have "drop (length old) (x # (xs @ b)) = b" by (simp add: old)
  ultimately have "literalReplaceAll old new (x # (xs @ b)) = new @ literalReplaceAll old new b"
    using assms(1) by (simp del: drop_Suc_Cons)
  then show "literalReplaceAll old new (old @ b) = new @ literalReplaceAll old new b"
    by (simp add: old)
qed

lemma literalReplaceEntries_keep:
  "list_all (\<lambda>(old, new). old \<noteq> [] \<and> \<not> overlaps old m) reps \<Longrightarrow>
   literalReplaceEntries reps (a @ m @ b)
     = literalReplaceEntries reps a @ m @ literalReplaceEntries reps b"
  by (induction reps arbitrary: a b) (auto simp: literalReplaceAll_keep)

lemma literalReplaceEntries_hit:
  assumes "list_all (\<lambda>(x, y). x \<noteq> [] \<and> \<not> overlaps x old) before"
      and "old \<noteq> []" "unbordered old"
      and "list_all (\<lambda>(x, y). x \<noteq> [] \<and> \<not> overlaps x new) after"
  shows "literalReplaceEntries (before @ (old, new) # after) (a @ old @ b)
           = literalReplaceEntries (before @ (old, new) # after) a @ new
             @ literalReplaceEntries (before @ (old, new) # after) b"
  using assms(1)
proof (induction before arbitrary: a b)
  case Nil
  show ?case
    by (simp add: literalReplaceAll_hit[OF assms(2,3)] literalReplaceEntries_keep[OF assms(4)])
next
  case (Cons p before)
  obtain x y where p: "p = (x, y)" by (cases p)
  with Cons.prems have "x \<noteq> []" "\<not> overlaps x old"
    and rest: "list_all (\<lambda>(x, y). x \<noteq> [] \<and> \<not> overlaps x old) before" by auto
  then have "literalReplaceAll x y (a @ old @ b)
               = literalReplaceAll x y a @ old @ literalReplaceAll x y b"
    by (simp add: literalReplaceAll_keep)
  with Cons.IH[OF rest] show ?case by (simp add: p)
qed

subsection \<open>The configured table\<close>

lemma unbordered_configured:
  "unbordered ''JORGE MEDINA GONZALEZ''" "unbordered ''MEGJ640107QSA''"
  "unbordered ''MEGJ640107HDFDNR07''" "unbordered ''facturas.jmg@outlook.com''"
  by (simp_all add: unbordered_def upt_rec)

lemma no_overlap_old_old:
  "\<not> overlaps ''JORGE MEDINA GONZALEZ'' ''MEGJ640107QSA''"
  "\<not> overlaps ''JORGE MEDINA GONZALEZ'' ''MEGJ640107HDFDNR07''"
  "\<not> overlaps ''JORGE MEDINA GONZALEZ'' ''facturas.jmg@outlook.com''"
  "\<not> overlaps ''MEGJ640107QSA'' ''MEGJ640107HDFDNR07''"
  "\<not> overlaps ''MEGJ640107QSA'' ''facturas.jmg@outlook.com''"
  "\<not> overlaps ''MEGJ640107HDFDNR07'' ''facturas.jmg@outlook.com''"
  by (simp_all add: overlaps_def startsInside_def upt_rec)

lemma no_overlap_old_new:
  "\<not> overlaps ''MEGJ640107QSA'' ''EDUARDO ROSALES PAZ''"
  "\<not> overlaps ''MEGJ640107HDFDNR07'' ''EDUARDO ROSALES PAZ''"
  "\<not> overlaps ''facturas.jmg@outlook.com'' ''EDUARDO ROSALES PAZ''"
  "\<not> overlaps ''MEGJ640107HDFDNR07'' ''ROPE6505115EA''"
  "\<not> overlaps ''facturas.jmg@outlook.com'' ''ROPE6505115EA''"
  "\<not> overlaps ''facturas.jmg@outlook.com'' ''ROPE650511HDFSZD07''"
  by (simp_all add: overlaps_def startsInside_def upt_rec)

lemma configured_plain:
  "list_all (\<lambda>(old, new). old \<noteq> [] \<and> CHR ''$'' \<notin> set new) REPLACEMENTS"
  by (simp add: REPLACEMENTS_def)

lemma configured_nonoverlapping: "pairwiseNonOverlapping (map fst REPLACEMENTS)"
  by (simp add: REPLACEMENTS_def overlaps_def startsInside_def upt_rec)

lemma sample_replace: "replaceEntries REPLACEMENTS ''<contratoSocial/>'' = Inr ''<contratoSocial/>''"
  by code_simp

lemma overlapping_replace: "replaceEntries overlappingTable ''<contratoSocial/>'' = Inr ''<contratoSocial/>''"
  by code_simp

text \<open>
  Claim C3. For each configured pair: the escaped pattern is read back as the old literal,
  character by character, with no wildcard; the round of that pair is the literal
  replacement of all occurrences; and wherever the old literal occurs in the input text
  (\<open>a @ old @ b\<close> for any \<open>a\<close> and \<open>b\<close>), the whole pass puts the new value there
  and treats the text before and after it as it would on their own.
\<close>

theorem C3:
  assumes "(old, new) \<in> set REPLACEMENTS"
  shows "parsePattern (escapeRegExp old) = Some (map Lit old)
       \<and> replaceOne old new t = Inr (literalReplaceAll old new t)
       \<and> (\<exists>a' b'. replaceEntries REPLACEMENTS a = Inr a'
                \<and> replaceEntries REPLACEMENTS b = Inr b'
                \<and> replaceEntries REPLACEMENTS (a @ old @ b) = Inr (a' @ new @ b'))"
proof (intro conjI)
  show "parsePattern (escapeRegExp old) = Some (map Lit old)"
    by (rule parsePattern_escapeRegExp)
  from assms show "replaceOne old new t = Inr (literalReplaceAll old new t)"
    by (auto simp: REPLACEMENTS_def intro!: replaceOne_literal)
  from assms have which:
    "(old = ''JORGE MEDINA GONZALEZ'' \<and> new = ''EDUARDO ROSALES PAZ'')
     \<or> (old = ''MEGJ640107QSA'' \<and> new = ''ROPE6505115EA'')
     \<or> (old = ''MEGJ640107HDFDNR07'' \<and> new = ''ROPE650511HDFSZD07'')
     \<or> (old = ''facturas.jmg@outlook.com'' \<and> new = ''tiskamx@outlook.com'')"
    by (simp add: REPLACEMENTS_def)
  let ?P = "\<lambda>before after. REPLACEMENTS = before @ (old, new) # after
       \<and> list_all (\<lambda>(x, y). x \<noteq> [] \<and> \<not> overlaps x old) before
       \<and> old \<noteq> [] \<and> unbordered old
       \<and> list_all (\<lambda>(x, y). x \<noteq> [] \<and> \<not> overlaps x new) after"
  from which have "\<exists>before after. ?P before after"
  proof (elim disjE conjE)
    assume name: "old = ''JORGE MEDINA GONZALEZ''" "new = ''EDUARDO ROSALES PAZ''"
    have "?P [] (drop 1 REPLACEMENTS)"
      by (simp add: REPLACEMENTS_def name no_overlap_old_new unbordered_configured)
    then show ?thesis by blast
  next
    assume rfc: "old = ''MEGJ640107QSA''" "new = ''ROPE6505115EA''"
    have "?P (take 1 REPLACEMENTS) (drop 2 REPLACEMENTS)"
      by (simp add: REPLACEMENTS_def rfc no_overlap_old_new no_overlap_old_old
            unbordered_configured)
    then show ?thesis by blast
  next
    assume curp: "old = ''MEGJ640107HDFDNR07''" "new = ''ROPE650511HDFSZD07''"
    have "?P (take 2 REPLACEMENTS) (drop 3 REPLACEMENTS)"
      by (simp add: REPLACEMENTS_def curp no_overlap_old_new no_overlap_old_old
            unbordered_configured)
    then show ?thesis by blast
  next
    assume mail: "old = ''facturas.jmg@outlook.com''" "new = ''tiskamx@outlook.com''"
    have "?P (take 3 REPLACEMENTS) []"
      by (simp add: REPLACEMENTS_def mail no_overlap_old_old unbordered_configured)
    then show ?thesis by blast
  qed
  then obtain before after where "?P before after" by blast
  then have "literalReplaceEntries REPLACEMENTS (a @ old @ b)
           = literalReplaceEntries REPLACEMENTS a @ new @ literalReplaceEntries REPLACEMENTS b"
    using literalReplaceEntries_hit[of old before new after a b] by simp
  then show "\<exists>a' b'. replaceEntries REPLACEMENTS a = Inr a'
                \<and> replaceEntries REPLACEMENTS b = Inr b'
                \<and> replaceEntries REPLACEMENTS (a @ old @ b) = Inr (a' @ new @ b')"
    by (simp only: replaceEntries_literal[OF configured_plain]) blast
qed

theorem C3_witness:
  "(''MEGJ640107QSA'', ''ROPE6505115EA'') \<in> set REPLACEMENTS
   \<and> replaceEntries REPLACEMENTS (''<rfc>'' @ ''MEGJ640107QSA'' @ ''</rfc>'')
       = Inr (''<rfc>'' @ ''ROPE6505115EA'' @ ''</rfc>'')"
proof -
  have m: "(''MEGJ640107QSA'', ''ROPE6505115EA'') \<in> set REPLACEMENTS"
    by (simp add: REPLACEMENTS_def)
  have a: "replaceEntries REPLACEMENTS ''<rfc>'' = Inr ''<rfc>''"
    by code_simp
  have b: "replaceEntries REPLACEMENTS ''</rfc>'' = Inr ''</rfc>''"
    by code_simp
  from C3[OF m, of "[]" "''<rfc>''" "''</rfc>''"] a b m show ?thesis
    by (elim conjE exE) (simp only: sum.inject)
qed

section \<open>The report\<close>

lemma isOK_interpolate: "isOK (interpolate strs i ps) \<longleftrightarrow> list_all isOK ps"
proof (induction ps arbitrary: i)
  case Nil
  show ?case by (simp add: interpolate.simps)
next
  case (Cons p ps)
  show ?case
  proof (cases p)
    case (Inl e)
    then show ?thesis by (simp add: interpolate.simps)
  next
    case (Inr v)
    have "isOK (interpolate strs (Suc i) ps) = list_all isOK ps" by (rule Cons.IH)
    then show ?thesis using Inr
      by (cases "interpolate strs (Suc i) ps") (simp_all add: interpolate.simps)
  qed
qed

lemma isOK_buildHTML_qr: "isOK (buildHTML h xmlObj qr) = isOK (buildHTML h xmlObj qr')"
  by (simp add: buildHTML_def isOK_bind isOK_interpolate)



lemma sample_html_ok: "isOK (buildHTML (sampleHost p q) (projr (patchTree (sampleTree []))) (JStr ''data:,''))"
  by (simp add: patchTree_def removeSignature_def patchPersonaMoral_def patchAccionista_def
        sample_defs buildHTML_def field_def documentsSection_def isOK_bind isOK_interpolate)

lemma broken_html_fails:
  "buildHTML h (projr (patchTree brokenTree)) qr
     = Inl (TypeError ''Cannot read properties of undefined (reading calle)'')"
  by (simp add: patchTree_def removeSignature_def patchPersonaMoral_def patchAccionista_def
        brokenTree_def buildHTML_def field_def interpolate.simps)

subsection \<open>The document list\<close>

text \<open>
  An absent (or empty) list gives the notice; an array of entries gives one card per
  entry, in order, each built from that entry's description and URI.
\<close>

lemma documentsSection_absent:
  "getProp data ''documentos'' = Inr v \<Longrightarrow> \<not> truthy v \<Longrightarrow>
   documentsSection h data = Inr noDocumentsNotice"
  by (simp add: documentsSection_def)

lemma mapM_length: "mapM f xs = Inr ys \<Longrightarrow> length ys = length xs \<and> (\<forall>i<length xs. f (xs ! i) = Inr (ys ! i))"
proof (induction xs arbitrary: ys)
  case Nil
  then show ?case by simp
next
  case (Cons x xs)
  from Cons.prems obtain y ys' where y: "f x = Inr y" and r: "mapM f xs = Inr ys'"
    and e: "ys = y # ys'" by (auto simp: bind_Inr_iff)
  from Cons.IH[OF r] y e show ?case by (auto simp: nth_Cons split: nat.splits)
qed

lemma documentsSection_array:
  assumes "getProp data ''documentos'' = Inr d" "truthy d"
      and "getProp d ''documento'' = Inr (JArr docs ps)"
      and "documentsSection h data = Inr html"
  shows "\<exists>cards. html = concat cards \<and> length cards = length docs
           \<and> (\<forall>i<length docs. documentCard h (docs ! i) = Inr (cards ! i))"
  using assms by (auto simp: documentsSection_def bind_Inr_iff dest: mapM_length)

lemma documentCard_shows:
  assumes "documentCard h doc = Inr cardHtml"
  shows "\<exists>d u. getProp doc ''descripcion'' = Inr d \<and> getProp doc ''uri'' = Inr u
           \<and> cardHtml = cardText h 0 @ toStr d @ cardText h 1 @ toStr u @ cardText h 2 @ toStr u
                    @ cardText h 3 @ toStr u @ cardText h 4 @ toStr u @ cardText h 5 @ toStr u
                    @ cardText h 6"
  using assms
  by (auto simp: documentCard_def interpolate.simps field_def bind_Inr_iff eval_nat_numeral)

lemma sample_patch_single: "isOK (patchTree (sampleTree singleDocument))"
  by (simp add: patchTree_def removeSignature_def patchPersonaMoral_def patchAccionista_def
        sample_defs singleDocument_def)

text \<open>
  Claim C4, at a patched tree whose document list has exactly one entry (which the parser
  delivers as an object under \<^verbatim>\<open>documento\<close>, as it does for the single \<^verbatim>\<open>accionista\<close>):
  rendering throws, because only an array has \<^verbatim>\<open>map\<close>.
\<close>

theorem C4_single_document_crashes:
  "isOK (patchTree (sampleTree singleDocument))
   \<and> buildHTML h (projr (patchTree (sampleTree singleDocument))) qr
       = Inl (TypeError ''data.documentos.documento.map is not a function'')"
  by (simp add: patchTree_def removeSignature_def patchPersonaMoral_def patchAccionista_def
        sample_defs singleDocument_def buildHTML_def field_def documentsSection_def
        interpolate.simps)

section \<open>Runs of the orchestrator\<close>

lemma generateQRCode_result: "fst (generateQRCode h w) = Inr (qrResult h)"
  by (simp add: generateQRCode_def qrResult_def Let_def split: sum.splits)

lemma run_success:
  assumes input: "files w (INPUT_FILE CONFIG) = Some raw"
      and subst: "replaceEntries reps raw = Inr content"
      and patch: "parseAndPatchXML (xmlParse h) content = Inr xmlObj"
      and build: "xmlBuild h xmlObj = Inr xml"
      and fs: "canMkdir h ''dist''" "canWrite h (OUTPUT_XML CONFIG)"
              "canWrite h (OUTPUT_HTML CONFIG)" "canWrite h (OUTPUT_README CONFIG)"
      and render: "buildHTML h xmlObj (qrResult h) = Inr html"
  shows "fst (transformWith reps h w) = 0
       \<and> files (snd (transformWith reps h w)) (OUTPUT_XML CONFIG) = Some xml
       \<and> files (snd (transformWith reps h w)) (OUTPUT_HTML CONFIG) = Some html"
proof (cases "qrToDataURL h (QR_TARGET_URL CONFIG) (QR_SIZE CONFIG)")
  case (Inl e)
  with render have "buildHTML h xmlObj JNull = Inr html" by (simp add: qrResult_def)
  then show ?thesis
    unfolding transformWith_def transformSteps_def
    by (simp add: ioBind_eval io_defs Let_def serializeXML_def outputs_distinct
          outputs_distinct[THEN not_sym] input subst patch build fs Inl)
next
  case (Inr u)
  with render have "buildHTML h xmlObj (JStr u) = Inr html" by (simp add: qrResult_def)
  then show ?thesis
    unfolding transformWith_def transformSteps_def
    by (simp add: ioBind_eval io_defs Let_def serializeXML_def outputs_distinct
          outputs_distinct[THEN not_sym] input subst patch build fs Inr)
qed

lemma run_render_fails:
  assumes input: "files w (INPUT_FILE CONFIG) = Some raw"
      and subst: "replaceEntries reps raw = Inr content"
      and patch: "parseAndPatchXML (xmlParse h) content = Inr xmlObj"
      and build: "xmlBuild h xmlObj = Inr xml"
      and fs: "canMkdir h ''dist''" "canWrite h (OUTPUT_XML CONFIG)"
      and render: "buildHTML h xmlObj (qrResult h) = Inl err"
  shows "fst (transformWith reps h w) = 1
       \<and> files (snd (transformWith reps h w)) (OUTPUT_XML CONFIG) = Some xml
       \<and> files (snd (transformWith reps h w)) (OUTPUT_HTML CONFIG) = files w (OUTPUT_HTML CONFIG)"
proof (cases "qrToDataURL h (QR_TARGET_URL CONFIG) (QR_SIZE CONFIG)")
  case (Inl e)
  with render have "buildHTML h xmlObj JNull = Inl err" by (simp add: qrResult_def)
  then show ?thesis
    unfolding transformWith_def transformSteps_def
    by (simp add: ioBind_eval io_defs Let_def serializeXML_def outputs_distinct
          outputs_distinct[THEN not_sym] input subst patch build fs Inl)
next
  case (Inr u)
  with render have "buildHTML h xmlObj (JStr u) = Inl err" by (simp add: qrResult_def)
  then show ?thesis
    unfolding transformWith_def transformSteps_def
    by (simp add: ioBind_eval io_defs Let_def serializeXML_def outputs_distinct
          outputs_distinct[THEN not_sym] input subst patch build fs Inr)
qed


lemma transformWith_exit:
  "fst (transformWith reps h w) = 0
   \<or> (fst (transformWith reps h w) = 1
      \<and> (\<exists>e evs. trace (snd (transformWith reps h w))
                   = evs @ [LogError ''Transformation failed:'' e, Exit 1]))"
proof -
  obtain r w1 where m: "transformSteps reps h w = (r, w1)" by (cases "transformSteps reps h w")
  then show ?thesis by (cases r) (simp_all add: transformWith_def emit_def)
qed

lemma run_exit0_stages:
  assumes "fst (transformWith reps h w) = 0"
  shows "\<exists>raw content xmlObj xml html.
           files w (INPUT_FILE CONFIG) = Some raw
         \<and> (''dist'' \<in> dirs w \<or> ''dist'' \<in> dom (files w) \<or> canMkdir h ''dist'')
         \<and> replaceEntries reps raw = Inr content
         \<and> parseAndPatchXML (xmlParse h) content = Inr xmlObj
         \<and> xmlBuild h xmlObj = Inr xml
         \<and> canWrite h (OUTPUT_XML CONFIG)
         \<and> buildHTML h xmlObj (qrResult h) = Inr html
         \<and> canWrite h (OUTPUT_HTML CONFIG)
         \<and> canWrite h (OUTPUT_README CONFIG)"
  using assms unfolding transformWith_def transformSteps_def
  by (auto simp: ioBind_eval io_defs Let_def serializeXML_def qrResult_def
        split: option.splits sum.splits if_splits prod.splits)

subsection \<open>The Signature property\<close>






subsection \<open>Files touched\<close>

lemma frame_trans:
  assumes "frame w w1" "frame w1 w2"
  shows "frame w w2"
proof -
  from assms obtain evs1 evs2 where
    t1: "trace w1 = trace w @ evs1" and o1: "\<forall>p. FsWrite p \<in> set evs1 \<longrightarrow> p \<in> outputs"
    and t2: "trace w2 = trace w1 @ evs2" and o2: "\<forall>p. FsWrite p \<in> set evs2 \<longrightarrow> p \<in> outputs"
    unfolding frame_def by blast
  from t1 t2 have "trace w2 = trace w @ (evs1 @ evs2)" by simp
  moreover from o1 o2 have "\<forall>p. FsWrite p \<in> set (evs1 @ evs2) \<longrightarrow> p \<in> outputs" by auto
  moreover from assms have "\<forall>p. p \<notin> outputs \<longrightarrow> files w2 p = files w p"
    unfolding frame_def by simp
  ultimately show ?thesis unfolding frame_def by blast
qed

lemma frame_emit: "\<not> (\<exists>p. ev = FsWrite p \<and> p \<notin> outputs) \<Longrightarrow> frame w (emit ev w)"
  by (auto simp: frame_def emit_def)

lemma frame_grows: "frame w w' \<Longrightarrow> \<exists>evs. trace w' = trace w @ evs"
  by (auto simp: frame_def)

lemma keepsFrame_ioBind:
  assumes "keepsFrame m" "\<And>x. keepsFrame (f x)"
  shows "keepsFrame (ioBind m f)"
  unfolding keepsFrame_def
proof
  fix w
  obtain r w1 where m: "m w = (r, w1)" by (cases "m w")
  from assms(1) m have f1: "frame w w1" by (auto simp: keepsFrame_def dest: spec[of _ w])
  show "frame w (snd (ioBind m f w))"
  proof (cases r)
    case (Inl e)
    with m f1 show ?thesis by (simp add: ioBind_def)
  next
    case (Inr x)
    from assms(2)[of x] have "frame w1 (snd (f x w1))" by (simp add: keepsFrame_def)
    with f1 m Inr show ?thesis by (auto simp: ioBind_def intro: frame_trans)
  qed
qed

lemma keepsFrame_prims:
  "keepsFrame (consoleLog msg)" "keepsFrame (existsSync p)" "keepsFrame (mkdirSync h p)"
  "keepsFrame (readFileSync p)" "keepsFrame (pure r)" "keepsFrame (generateQRCode h)"
  by (auto simp: keepsFrame_def frame_def io_defs Let_def split: option.splits sum.splits)

lemma keepsFrame_write: "p \<in> outputs \<Longrightarrow> keepsFrame (writeFileSync h p content)"
  by (auto simp: keepsFrame_def frame_def io_defs)

lemma keepsFrame_ensureDistDir: "keepsFrame (ensureDistDir h)"
  unfolding ensureDistDir_def
  by (intro keepsFrame_ioBind keepsFrame_prims) (simp add: keepsFrame_prims)

lemma keepsFrame_readAndReplaceXML: "keepsFrame (readAndReplaceXML reps)"
  unfolding readAndReplaceXML_def by (intro keepsFrame_ioBind keepsFrame_prims)

lemma keepsFrame_transformSteps: "keepsFrame (transformSteps reps h)"
  unfolding transformSteps_def
  by (intro keepsFrame_ioBind keepsFrame_prims keepsFrame_ensureDistDir
        keepsFrame_readAndReplaceXML keepsFrame_write)
     (simp_all add: outputs_def)

lemma frame_transformWith: "frame w (snd (transformWith reps h w))"
proof -
  obtain r w1 where m: "transformSteps reps h w = (r, w1)" by (cases "transformSteps reps h w")
  with keepsFrame_transformSteps[of reps h] have f1: "frame w w1"
    by (auto simp: keepsFrame_def dest: spec[of _ w])
  show ?thesis
  proof (cases r)
    case (Inr u)
    with m f1 show ?thesis by (simp add: transformWith_def)
  next
    case (Inl e)
    have "frame w1 (emit (Exit 1) (emit (LogError ''Transformation failed:'' e) w1))"
      by (intro frame_trans[OF frame_emit frame_emit]) simp_all
    with m f1 Inl show ?thesis by (auto simp: transformWith_def intro: frame_trans)
  qed
qed

text \<open>
  Claim C9. A run leaves every file other than the three output artifacts as it was, the
  input file in particular, and every write it issues goes to one of the three output
  paths.
\<close>

theorem C9:
  "(\<forall>p. p \<notin> {OUTPUT_XML CONFIG, OUTPUT_HTML CONFIG, OUTPUT_README CONFIG}
        \<longrightarrow> files (snd (transform h w)) p = files w p)
   \<and> files (snd (transform h w)) (INPUT_FILE CONFIG) = files w (INPUT_FILE CONFIG)
   \<and> (\<exists>evs. trace (snd (transform h w)) = trace w @ evs
         \<and> (\<forall>p. FsWrite p \<in> set evs
               \<longrightarrow> p \<in> {OUTPUT_XML CONFIG, OUTPUT_HTML CONFIG, OUTPUT_README CONFIG}))"
proof -
  have "frame w (snd (transform h w))"
    unfolding transform_def by (rule frame_transformWith)
  moreover have "INPUT_FILE CONFIG \<notin> outputs"
    by (simp add: outputs_def outputs_distinct)
  ultimately show ?thesis
    unfolding frame_def outputs_def by blast
qed

theorem C9_witness:
  "files (snd (transform (sampleHost (Inr (sampleTree [])) (Inr ''data:image/png;base64,AAAA''))
                 sampleWorld)) ''notes.txt'' = Some ''keep''
   \<and> files (snd (transform (sampleHost (Inr (sampleTree [])) (Inr ''data:image/png;base64,AAAA''))
                 sampleWorld)) (INPUT_FILE CONFIG) = Some ''<contratoSocial/>''"
proof -
  have "''notes.txt'' \<notin> {OUTPUT_XML CONFIG, OUTPUT_HTML CONFIG, OUTPUT_README CONFIG}"
    by (simp add: CONFIG_def)
  moreover have "files sampleWorld ''notes.txt'' = Some ''keep''"
    "files sampleWorld (INPUT_FILE CONFIG) = Some ''<contratoSocial/>''"
    by (simp_all add: sampleWorld_def CONFIG_def)
  ultimately show ?thesis
    using C9[of "sampleHost (Inr (sampleTree [])) (Inr ''data:image/png;base64,AAAA'')" sampleWorld]
    by simp
qed

subsection \<open>No validation of the table\<close>

lemma run_starts:
  assumes "\<And>x. keepsFrame (k x)"
  shows "\<exists>evs. trace (snd (ioBind (consoleLog msg) (\<lambda>_. ioBind (ensureDistDir h) k) w))
               = trace w @ Log msg # FsExists ''dist'' # evs"
proof -
  let ?w1 = "emit (Log msg) w"
  obtain r w2 where e: "ensureDistDir h ?w1 = (r, w2)" by (cases "ensureDistDir h ?w1")
  then have t2: "\<exists>evs. trace w2 = trace w @ Log msg # FsExists ''dist'' # evs"
    by (auto simp: ensureDistDir_def ioBind_eval io_defs split: if_splits)
  show ?thesis
  proof (cases r)
    case (Inl err)
    with e t2 show ?thesis by (simp add: ioBind_eval consoleLog_def)
  next
    case (Inr x)
    from assms[of x] have "frame w2 (snd (k x w2))" by (simp add: keepsFrame_def)
    then obtain evs' where "trace (snd (k x w2)) = trace w2 @ evs'" by (auto dest: frame_grows)
    with e t2 Inr show ?thesis by (auto simp: ioBind_eval consoleLog_def)
  qed
qed

lemma transformSteps_starts:
  "\<exists>evs. trace (snd (transformSteps reps h w))
          = trace w @ Log ''Starting XML transformation...'' # FsExists ''dist'' # evs"
  unfolding transformSteps_def
  by (rule run_starts)
     (intro keepsFrame_ioBind keepsFrame_prims keepsFrame_readAndReplaceXML keepsFrame_write,
      simp_all add: outputs_def)

text \<open>
  Claim C6, as amended. The configured old literals are pairwise non-overlapping, but the
  program does not check it: with any table of replacements, the run starts at once with
  its first console message and the look-up of the output directory.
\<close>

theorem C6_no_validation:
  "pairwiseNonOverlapping (map fst REPLACEMENTS)
   \<and> (\<exists>evs. trace (snd (transformWith reps h w))
              = trace w @ Log ''Starting XML transformation...'' # FsExists ''dist'' # evs)"
proof -
  obtain r w1 where m: "transformSteps reps h w = (r, w1)" by (cases "transformSteps reps h w")
  with transformSteps_starts[of reps h w] obtain evs where
    "trace w1 = trace w @ Log ''Starting XML transformation...'' # FsExists ''dist'' # evs"
    by auto
  with m have "\<exists>evs. trace (snd (transformWith reps h w))
              = trace w @ Log ''Starting XML transformation...'' # FsExists ''dist'' # evs"
    by (cases r) (simp_all add: transformWith_def emit_def)
  with configured_nonoverlapping show ?thesis by simp
qed

text \<open>
  Claim C6 as stated fails: with a table whose old literals overlap, the run does its
  I/O and ends with exit code 0.
\<close>

theorem C6_counterexample:
  "\<not> pairwiseNonOverlapping (map fst overlappingTable)
   \<and> fst (transformWith overlappingTable
            (sampleHost (Inr (sampleTree [])) (Inr ''data:image/png;base64,AAAA'')) sampleWorld) = 0
   \<and> files (snd (transformWith overlappingTable
            (sampleHost (Inr (sampleTree [])) (Inr ''data:image/png;base64,AAAA'')) sampleWorld))
        (OUTPUT_XML CONFIG) = Some ''<contratoSocial/>''"
proof -
  have 1: "\<not> pairwiseNonOverlapping (map fst overlappingTable)"
    by (simp add: overlappingTable_def overlaps_def startsInside_def upt_rec)
  let ?h = "sampleHost (Inr (sampleTree [])) (Inr ''data:image/png;base64,AAAA'')"
  let ?t = "projr (patchTree (sampleTree []))"
  have input: "files sampleWorld (INPUT_FILE CONFIG) = Some ''<contratoSocial/>''"
    by (simp add: sampleWorld_def CONFIG_def)
  have patch: "parseAndPatchXML (xmlParse ?h) ''<contratoSocial/>'' = Inr ?t"
    using isOK_projr[OF sample_patch_ok] by (simp add: parseAndPatchXML_def sampleHost_def)
  have build: "xmlBuild ?h ?t = Inr ''<contratoSocial/>''"
    by (simp add: sampleHost_def)
  have fs: "canMkdir ?h ''dist''" "canWrite ?h (OUTPUT_XML CONFIG)"
     "canWrite ?h (OUTPUT_HTML CONFIG)" "canWrite ?h (OUTPUT_README CONFIG)"
    by (simp_all add: sampleHost_def)
  have q: "qrResult ?h = JStr ''data:image/png;base64,AAAA''"
    by (simp add: qrResult_def sampleHost_def)
  have "isOK (buildHTML ?h ?t (qrResult ?h))"
    using isOK_buildHTML_qr[of ?h ?t "qrResult ?h" "JStr ''data:,''"] sample_html_ok by simp
  then have render: "buildHTML ?h ?t (qrResult ?h) = Inr (projr (buildHTML ?h ?t (qrResult ?h)))"
    by (rule isOK_projr)
  from run_success[OF input overlapping_replace patch build fs render]
  have "fst (transformWith overlappingTable ?h sampleWorld) = 0
      \<and> files (snd (transformWith overlappingTable ?h sampleWorld)) (OUTPUT_XML CONFIG)
          = Some ''<contratoSocial/>''" by simp
  with 1 show ?thesis by simp
qed

subsection \<open>Failure after an artifact is written\<close>

text \<open>
  Claim C7, as amended. A run ends with exit code 0 or with exit code 1 and the cause
  logged; it ends with 0 only when reading, substitution, parsing and patching,
  serialization, rendering and the three writes have all succeeded (a failure of the QR
  encoder is caught and is not among them). Artifacts are written at their final paths:
  when the stages up to the XML artifact succeed and the report cannot be rendered, the
  run ends with exit code 1, the XML artifact stays complete and no report is written.
\<close>

theorem C7_artifacts_stay:
  "(fst (transform h w) = 0
    \<or> (fst (transform h w) = 1
       \<and> (\<exists>e evs. trace (snd (transform h w))
                    = evs @ [LogError ''Transformation failed:'' e, Exit 1])))
   \<and> (fst (transform h w) = 0 \<longrightarrow>
        (\<exists>raw content xmlObj xml html.
           files w (INPUT_FILE CONFIG) = Some raw
         \<and> (''dist'' \<in> dirs w \<or> ''dist'' \<in> dom (files w) \<or> canMkdir h ''dist'')
         \<and> replaceEntries REPLACEMENTS raw = Inr content
         \<and> parseAndPatchXML (xmlParse h) content = Inr xmlObj
         \<and> xmlBuild h xmlObj = Inr xml
         \<and> canWrite h (OUTPUT_XML CONFIG)
         \<and> buildHTML h xmlObj (qrResult h) = Inr html
         \<and> canWrite h (OUTPUT_HTML CONFIG)
         \<and> canWrite h (OUTPUT_README CONFIG)))
   \<and> (files w (INPUT_FILE CONFIG) = Some raw
       \<and> replaceEntries REPLACEMENTS raw = Inr content
       \<and> parseAndPatchXML (xmlParse h) content = Inr xmlObj
       \<and> xmlBuild h xmlObj = Inr xml
       \<and> canMkdir h ''dist'' \<and> canWrite h (OUTPUT_XML CONFIG)
       \<and> buildHTML h xmlObj JNull = Inl err
       \<longrightarrow> fst (transform h w) = 1
         \<and> files (snd (transform h w)) (OUTPUT_XML CONFIG) = Some xml
         \<and> files (snd (transform h w)) (OUTPUT_HTML CONFIG) = files w (OUTPUT_HTML CONFIG))"
proof (intro conjI impI)
  show "fst (transform h w) = 0
    \<or> (fst (transform h w) = 1
       \<and> (\<exists>e evs. trace (snd (transform h w))
                    = evs @ [LogError ''Transformation failed:'' e, Exit 1]))"
    using transformWith_exit[of REPLACEMENTS h w] by (simp add: transform_def)
next
  assume "fst (transform h w) = 0"
  then show "\<exists>raw content xmlObj xml html.
           files w (INPUT_FILE CONFIG) = Some raw
         \<and> (''dist'' \<in> dirs w \<or> ''dist'' \<in> dom (files w) \<or> canMkdir h ''dist'')
         \<and> replaceEntries REPLACEMENTS raw = Inr content
         \<and> parseAndPatchXML (xmlParse h) content = Inr xmlObj
         \<and> xmlBuild h xmlObj = Inr xml
         \<and> canWrite h (OUTPUT_XML CONFIG)
         \<and> buildHTML h xmlObj (qrResult h) = Inr html
         \<and> canWrite h (OUTPUT_HTML CONFIG)
         \<and> canWrite h (OUTPUT_README CONFIG)"
    unfolding transform_def by (rule run_exit0_stages)
next
  assume a: "files w (INPUT_FILE CONFIG) = Some raw
       \<and> replaceEntries REPLACEMENTS raw = Inr content
       \<and> parseAndPatchXML (xmlParse h) content = Inr xmlObj
       \<and> xmlBuild h xmlObj = Inr xml
       \<and> canMkdir h ''dist'' \<and> canWrite h (OUTPUT_XML CONFIG)
       \<and> buildHTML h xmlObj JNull = Inl err"
  then have "\<not> isOK (buildHTML h xmlObj (qrResult h))"
    using isOK_buildHTML_qr[of h xmlObj "qrResult h" JNull] by simp
  then obtain e where "buildHTML h xmlObj (qrResult h) = Inl e"
    by (cases "buildHTML h xmlObj (qrResult h)") simp_all
  with a have r: "fst (transformWith REPLACEMENTS h w) = 1
       \<and> files (snd (transformWith REPLACEMENTS h w)) (OUTPUT_XML CONFIG) = Some xml
       \<and> files (snd (transformWith REPLACEMENTS h w)) (OUTPUT_HTML CONFIG)
           = files w (OUTPUT_HTML CONFIG)"
    using run_render_fails[of w raw REPLACEMENTS content h xmlObj xml e] by blast
  from r show "fst (transform h w) = 1" by (simp add: transform_def)
  from r show "files (snd (transform h w)) (OUTPUT_XML CONFIG) = Some xml"
    by (simp add: transform_def)
  from r show "files (snd (transform h w)) (OUTPUT_HTML CONFIG) = files w (OUTPUT_HTML CONFIG)"
    by (simp add: transform_def)
qed

theorem C7_witness:
  "fst (transform (sampleHost (Inr brokenTree) (Inl (LibError ''encoder failed''))) sampleWorld) = 1
   \<and> files (snd (transform (sampleHost (Inr brokenTree) (Inl (LibError ''encoder failed'')))
                   sampleWorld)) (OUTPUT_XML CONFIG) = Some ''<contratoSocial/>''
   \<and> files (snd (transform (sampleHost (Inr brokenTree) (Inl (LibError ''encoder failed'')))
                   sampleWorld)) (OUTPUT_HTML CONFIG) = None"
proof -
  let ?h = "sampleHost (Inr brokenTree) (Inl (LibError ''encoder failed''))"
  have input: "files sampleWorld (INPUT_FILE CONFIG) = Some ''<contratoSocial/>''"
    by (simp add: sampleWorld_def CONFIG_def)
  have patch: "parseAndPatchXML (xmlParse ?h) ''<contratoSocial/>'' = Inr (projr (patchTree brokenTree))"
    using isOK_projr[OF broken_patch_ok] by (simp add: parseAndPatchXML_def sampleHost_def)
  have build: "xmlBuild ?h (projr (patchTree brokenTree)) = Inr ''<contratoSocial/>''"
    by (simp add: sampleHost_def)
  have fs: "canMkdir ?h ''dist''" "canWrite ?h (OUTPUT_XML CONFIG)"
    by (simp_all add: sampleHost_def)
  have none: "files sampleWorld (OUTPUT_HTML CONFIG) = None"
    by (simp add: sampleWorld_def CONFIG_def)
  have render: "buildHTML ?h (projr (patchTree brokenTree)) JNull
                  = Inl (TypeError ''Cannot read properties of undefined (reading calle)'')"
    by (rule broken_html_fails)
  from C7_artifacts_stay[of ?h sampleWorld "''<contratoSocial/>''" "''<contratoSocial/>''"
      "projr (patchTree brokenTree)" "''<contratoSocial/>''"
      "TypeError ''Cannot read properties of undefined (reading calle)''"]
    input sample_replace patch build fs render none
  show ?thesis by simp
qed

text \<open>
  Claim C7 as stated fails: a run that fails in the report renderer leaves the XML
  artifact, which did not exist before, as a complete file.
\<close>

theorem C7_counterexample:
  "fst (transform (sampleHost (Inr brokenTree) (Inr ''data:image/png;base64,AAAA'')) sampleWorld) = 1
   \<and> files sampleWorld (OUTPUT_XML CONFIG) = None
   \<and> files (snd (transform (sampleHost (Inr brokenTree) (Inr ''data:image/png;base64,AAAA''))
                   sampleWorld)) (OUTPUT_XML CONFIG) = Some ''<contratoSocial/>''"
proof -
  let ?h = "sampleHost (Inr brokenTree) (Inr ''data:image/png;base64,AAAA'')"
  have input: "files sampleWorld (INPUT_FILE CONFIG) = Some ''<contratoSocial/>''"
    by (simp add: sampleWorld_def CONFIG_def)
  have patch: "parseAndPatchXML (xmlParse ?h) ''<contratoSocial/>'' = Inr (projr (patchTree brokenTree))"
    using isOK_projr[OF broken_patch_ok] by (simp add: parseAndPatchXML_def sampleHost_def)
  have build: "xmlBuild ?h (projr (patchTree brokenTree)) = Inr ''<contratoSocial/>''"
    by (simp add: sampleHost_def)
  have fs: "canMkdir ?h ''dist''" "canWrite ?h (OUTPUT_XML CONFIG)"
    by (simp_all add: sampleHost_def)
  from run_render_fails[OF input sample_replace patch build fs broken_html_fails]
  have "fst (transform ?h sampleWorld) = 1
   \<and> files (snd (transform ?h sampleWorld)) (OUTPUT_XML CONFIG) = Some ''<contratoSocial/>''"
    by (simp add: transform_def)
  moreover have "files sampleWorld (OUTPUT_XML CONFIG) = None"
    by (simp add: sampleWorld_def CONFIG_def)
  ultimately show ?thesis by simp
qed

subsection \<open>The environment\<close>

lemma envFree_ioBind:
  assumes "envFree m" "\<And>x. envFree (f x)"
  shows "envFree (ioBind m f)"
  unfolding envFree_def
proof (intro allI)
  fix w E
  obtain r w1 where m: "m w = (r, w1)" by (cases "m w")
  with assms(1) have m': "m (w\<lparr>env := E\<rparr>) = (r, w1\<lparr>env := E\<rparr>)"
    by (simp add: envFree_def)
  show "ioBind m f (w\<lparr>env := E\<rparr>) = (fst (ioBind m f w), (snd (ioBind m f w))\<lparr>env := E\<rparr>)"
  proof (cases r)
    case (Inl e)
    with m m' show ?thesis by (simp add: ioBind_eval)
  next
    case (Inr x)
    from assms(2)[of x] have "f x (w1\<lparr>env := E\<rparr>) = (fst (f x w1), (snd (f x w1))\<lparr>env := E\<rparr>)"
      by (simp add: envFree_def)
    with m m' Inr show ?thesis by (simp add: ioBind_eval)
  qed
qed

lemma envFree_prims:
  "envFree (consoleLog msg)" "envFree (existsSync p)" "envFree (mkdirSync h p)"
  "envFree (readFileSync p)" "envFree (pure r)" "envFree (generateQRCode h)"
  "envFree (writeFileSync h p content)"
  by (auto simp: envFree_def io_defs Let_def split: option.splits sum.splits)

lemma envFree_transformSteps: "envFree (transformSteps reps h)"
  unfolding transformSteps_def ensureDistDir_def readAndReplaceXML_def
  by (intro envFree_ioBind envFree_prims) (simp add: envFree_prims)

lemma transformWith_env:
  "transformWith reps h (w\<lparr>env := E\<rparr>)
     = (fst (transformWith reps h w), (snd (transformWith reps h w))\<lparr>env := E\<rparr>)"
proof -
  obtain r w1 where m: "transformSteps reps h w = (r, w1)" by (cases "transformSteps reps h w")
  with envFree_transformSteps[of reps h]
  have "transformSteps reps h (w\<lparr>env := E\<rparr>) = (r, w1\<lparr>env := E\<rparr>)"
    by (simp add: envFree_def)
  with m show ?thesis by (cases r) (simp_all add: transformWith_def emit_def)
qed

text \<open>
  Claim C8, with \<^verbatim>\<open>QR_TARGET_URL\<close> set in the environment: the run is the run without the
  variable, and the encoder is called with the built-in URL.
\<close>

theorem C8_environment_ignored:
  "transform h (w\<lparr>env := [''QR_TARGET_URL'' \<mapsto> ''https://production-site.com/contrato/585748'']\<rparr>)
     = (fst (transform h w),
        (snd (transform h w))\<lparr>env := [''QR_TARGET_URL'' \<mapsto> ''https://production-site.com/contrato/585748'']\<rparr>)
   \<and> (\<exists>evs. trace (snd (generateQRCode h
          (w\<lparr>env := [''QR_TARGET_URL'' \<mapsto> ''https://production-site.com/contrato/585748'']\<rparr>)))
        = trace w @ QrCall ''https://alt-site.example.com/contrato/585748'' 200 # evs)"
proof -
  have "\<exists>evs. trace (snd (generateQRCode h
          (w\<lparr>env := [''QR_TARGET_URL'' \<mapsto> ''https://production-site.com/contrato/585748'']\<rparr>)))
        = trace w @ QrCall ''https://alt-site.example.com/contrato/585748'' 200 # evs"
    by (cases "qrToDataURL h (QR_TARGET_URL CONFIG) (QR_SIZE CONFIG)")
       (simp_all add: generateQRCode_def emit_def Let_def CONFIG_def)
  then show ?thesis by (simp add: transform_def transformWith_env)
qed

end
